theory Spec2Isabelle
  imports Complex_Main
begin

section \<open>Data model\<close>

text \<open>
  Python floats are modelled as \<^typ>\<open>real\<close> (exact arithmetic, no rounding, no NaN),
  Python ints as \<^typ>\<open>int\<close> or \<^typ>\<open>nat\<close> (lengths), strings as \<^typ>\<open>string\<close>.
  A \<open>dict\<close> is an association list in insertion order, which is the order Python
  iterates it in. A float or int division by zero raises \<open>ZeroDivisionError\<close>.
\<close>

datatype py_error = ZeroDivisionError

type_synonym datetime = int

text \<open>\<open>scraper.py\<close>: \<open>class Trader\<close> and \<open>class Position\<close>.\<close>

record Trader =
  encrypted_uid :: string
  nick_name :: string
  rank :: int
  roi :: real
  tr_win_rate :: real
  tr_pnl :: real
  following_count :: int
  trade_period_days :: int

record Position =
  symbol :: string
  side :: string
  entry_price :: real
  mark_price :: real
  pnl :: real
  roe :: real
  leverage :: int
  update_time :: int

text \<open>\<open>consensus.py\<close>: \<open>class SymbolConsensus\<close>.\<close>

record SymbolConsensus =
  sc_symbol :: string
  long_count :: nat
  short_count :: nat
  total_count :: nat
  long_percent :: real
  short_percent :: real
  avg_leverage_long :: real
  avg_leverage_short :: real
  total_long_pnl :: real
  total_short_pnl :: real
  signal :: string

text \<open>The value of the \<open>defaultdict\<close> \<open>symbol_data\<close>: six lists per symbol.\<close>

record SymbolData =
  longs :: "string list"
  shorts :: "string list"
  long_pnl :: "real list"
  short_pnl :: "real list"
  long_leverage :: "int list"
  short_leverage :: "int list"

section \<open>Python primitives\<close>

definition truediv :: "real \<Rightarrow> real \<Rightarrow> py_error + real" where
  "truediv a b = (if b = 0 then Inl ZeroDivisionError else Inr (a / b))"

definition then_e :: "py_error + 'a \<Rightarrow> ('a \<Rightarrow> py_error + 'b) \<Rightarrow> py_error + 'b" where
  "then_e r f = (case r of Inl e \<Rightarrow> Inl e | Inr v \<Rightarrow> f v)"

text \<open>
  \<open>list.sort(key=lambda x: x.total_count, reverse=True)\<close>: Python's sort is stable, and
  with \<open>reverse=True\<close> it still keeps elements of equal key in their original order.
  The model is the stable insertion sort of the library on the negated key.
\<close>

definition sort_total_desc :: "SymbolConsensus list \<Rightarrow> SymbolConsensus list" where
  "sort_total_desc cs = sort_key (\<lambda>c. - int (total_count c)) cs"

section \<open>\<open>ConsensusEngine\<close>\<close>

text \<open>\<open>_get_signal\<close>; the first argument is \<open>self.min_consensus\<close>.\<close>

definition get_signal :: "real \<Rightarrow> real \<Rightarrow> real \<Rightarrow> string" where
  "get_signal min_consensus lp sp =
     (if lp \<ge> 70 then ''STRONG_BUY''
      else if lp \<ge> min_consensus then ''BUY''
      else if sp \<ge> 70 then ''STRONG_SELL''
      else if sp \<ge> min_consensus then ''SELL''
      else ''NEUTRAL'')"

text \<open>The factory of the \<open>defaultdict\<close>.\<close>

definition empty_data :: SymbolData where
  "empty_data = \<lparr>longs = [], shorts = [], long_pnl = [], short_pnl = [],
     long_leverage = [], short_leverage = []\<rparr>"

text \<open>
  \<open>symbol_data[symbol]\<close> followed by an in-place change of the entry: an existing key
  keeps its place, a new key is created from the factory at the end.
\<close>

fun dd_update :: "string \<Rightarrow> (SymbolData \<Rightarrow> SymbolData) \<Rightarrow> (string \<times> SymbolData) list
    \<Rightarrow> (string \<times> SymbolData) list" where
  "dd_update k f [] = [(k, f empty_data)]"
| "dd_update k f ((k', d) # rest) =
     (if k = k' then (k', f d) # rest else (k', d) # dd_update k f rest)"

text \<open>
  \<open>tracked_symbols and symbol not in tracked_symbols\<close>: \<open>None\<close> and the empty list are
  both falsy.
\<close>

definition filtered_out :: "string list option \<Rightarrow> string \<Rightarrow> bool" where
  "filtered_out tracked_symbols s =
     (case tracked_symbols of None \<Rightarrow> False
      | Some ts \<Rightarrow> ts \<noteq> [] \<and> s \<notin> set ts)"

definition append_long :: "string \<Rightarrow> Position \<Rightarrow> SymbolData \<Rightarrow> SymbolData" where
  "append_long uid pos d =
     d\<lparr>longs := longs d @ [uid], long_pnl := long_pnl d @ [pnl pos],
       long_leverage := long_leverage d @ [leverage pos]\<rparr>"

definition append_short :: "string \<Rightarrow> Position \<Rightarrow> SymbolData \<Rightarrow> SymbolData" where
  "append_short uid pos d =
     d\<lparr>shorts := shorts d @ [uid], short_pnl := short_pnl d @ [pnl pos],
       short_leverage := short_leverage d @ [leverage pos]\<rparr>"

text \<open>The body of the inner loop, for one position of one trader.\<close>

definition group_position :: "string list option \<Rightarrow> string \<Rightarrow> Position
    \<Rightarrow> (string \<times> SymbolData) list \<Rightarrow> (string \<times> SymbolData) list" where
  "group_position tracked_symbols uid pos sd =
     (if filtered_out tracked_symbols (symbol pos) then sd
      else if side pos = ''LONG'' then dd_update (symbol pos) (append_long uid pos) sd
      else dd_update (symbol pos) (append_short uid pos) sd)"

text \<open>\<open>for pos in trader_positions\<close>.\<close>

fun group_trader :: "string list option \<Rightarrow> string \<Rightarrow> Position list
    \<Rightarrow> (string \<times> SymbolData) list \<Rightarrow> (string \<times> SymbolData) list" where
  "group_trader tracked_symbols uid [] sd = sd"
| "group_trader tracked_symbols uid (pos # ps) sd =
     group_trader tracked_symbols uid ps (group_position tracked_symbols uid pos sd)"

text \<open>\<open>for trader_uid, trader_positions in positions.items()\<close>.\<close>

fun group_all :: "string list option \<Rightarrow> (string \<times> Position list) list
    \<Rightarrow> (string \<times> SymbolData) list \<Rightarrow> (string \<times> SymbolData) list" where
  "group_all tracked_symbols [] sd = sd"
| "group_all tracked_symbols ((uid, ps) # rest) sd =
     group_all tracked_symbols rest (group_trader tracked_symbols uid ps sd)"

text \<open>\<open>sum(xs) / len(xs) if xs else 0\<close> on a list of ints.\<close>

definition avg_leverage :: "int list \<Rightarrow> py_error + real" where
  "avg_leverage xs =
     (if xs \<noteq> [] then truediv (real_of_int (sum_list xs)) (real (length xs)) else Inr 0)"

text \<open>
  The body of the second loop for one entry of \<open>symbol_data\<close>: \<open>None\<close> is the
  \<open>continue\<close> taken when \<open>total == 0\<close>.
\<close>

definition consensus_of :: "real \<Rightarrow> string \<times> SymbolData \<Rightarrow> py_error + SymbolConsensus option" where
  "consensus_of min_consensus e =
     (let s = fst e; data = snd e;
          lc = length (longs data);
          sc = length (shorts data);
          total = lc + sc
      in if total = 0 then Inr None
         else
           then_e (truediv (real lc) (real total)) (\<lambda>q1.
           then_e (truediv (real sc) (real total)) (\<lambda>q2.
           then_e (avg_leverage (long_leverage data)) (\<lambda>all.
           then_e (avg_leverage (short_leverage data)) (\<lambda>als.
             Inr (Some \<lparr>sc_symbol = s, long_count = lc, short_count = sc,
               total_count = total,
               long_percent = q1 * 100, short_percent = q2 * 100,
               avg_leverage_long = all, avg_leverage_short = als,
               total_long_pnl = sum_list (long_pnl data),
               total_short_pnl = sum_list (short_pnl data),
               signal = get_signal min_consensus (q1 * 100) (q2 * 100)\<rparr>))))))"

text \<open>\<open>for symbol, data in symbol_data.items()\<close>, appending to \<open>consensus_list\<close>.\<close>

fun consensus_loop :: "real \<Rightarrow> (string \<times> SymbolData) list \<Rightarrow> SymbolConsensus list
    \<Rightarrow> py_error + SymbolConsensus list" where
  "consensus_loop min_consensus [] acc = Inr acc"
| "consensus_loop min_consensus (e # rest) acc =
     then_e (consensus_of min_consensus e) (\<lambda>r.
       case r of None \<Rightarrow> consensus_loop min_consensus rest acc
       | Some c \<Rightarrow> consensus_loop min_consensus rest (acc @ [c]))"

text \<open>
  \<open>calculate_consensus\<close>. The argument \<open>traders\<close> is never read by the source and is
  kept only for the signature.
\<close>

definition calculate_consensus :: "real \<Rightarrow> Trader list \<Rightarrow> (string \<times> Position list) list
    \<Rightarrow> string list option \<Rightarrow> py_error + SymbolConsensus list" where
  "calculate_consensus min_consensus traders positions tracked_symbols =
     then_e (consensus_loop min_consensus (group_all tracked_symbols positions []) [])
       (\<lambda>consensus_list. Inr (sort_total_desc consensus_list))"

text \<open>\<open>get_strong_signals\<close>: the records whose signal is not NEUTRAL.\<close>

definition get_strong_signals :: "SymbolConsensus list \<Rightarrow> SymbolConsensus list" where
  "get_strong_signals consensus_list =
     filter (\<lambda>c. signal c \<in> set [''STRONG_BUY'', ''BUY'', ''STRONG_SELL'', ''SELL''])
       consensus_list"

section \<open>\<open>test_data.py\<close> and \<open>backtest.py\<close>\<close>

record MockTrader =
  m_encrypted_uid :: string
  m_nick_name :: string
  m_rank :: int
  m_roi :: real
  m_win_rate :: real

record MockPosition =
  m_symbol :: string
  m_side :: string
  m_entry_price :: real
  m_exit_price :: real
  m_entry_time :: datetime
  m_exit_time :: datetime
  m_pnl :: real

record TestScenario =
  s_name :: string
  s_description :: string
  s_date :: datetime
  s_traders :: "MockTrader list"
  s_positions :: "(string \<times> MockPosition list) list"
  s_expected_consensus :: "(string \<times> real) list"

record Trade =
  t_symbol :: string
  t_side :: string
  t_entry_price :: real
  t_exit_price :: real
  t_entry_time :: datetime
  t_exit_time :: datetime
  t_pnl :: real
  t_pnl_percent :: real
  t_signal :: string

record BacktestResult =
  total_trades :: nat
  winning_trades :: nat
  losing_trades :: nat
  win_rate :: real
  total_pnl :: real
  avg_profit :: real
  avg_loss :: real
  max_drawdown :: real
  trades :: "Trade list"

text \<open>\<open>d.get(k, default)\<close> and \<open>d[k] = v\<close> on a dict kept in insertion order.\<close>

definition dict_get :: "('k \<times> 'v) list \<Rightarrow> 'k \<Rightarrow> 'v \<Rightarrow> 'v" where
  "dict_get d k dflt = (case map_of d k of None \<Rightarrow> dflt | Some v \<Rightarrow> v)"

fun dict_set :: "'k \<Rightarrow> 'v \<Rightarrow> ('k \<times> 'v) list \<Rightarrow> ('k \<times> 'v) list" where
  "dict_set k v [] = [(k, v)]"
| "dict_set k v ((k', v') # rest) =
     (if k = k' then (k', v) # rest else (k', v') # dict_set k v rest)"

definition convert_trader :: "MockTrader \<Rightarrow> Trader" where
  "convert_trader mt =
     \<lparr>encrypted_uid = m_encrypted_uid mt, nick_name = m_nick_name mt, rank = m_rank mt,
      roi = m_roi mt, tr_win_rate = m_win_rate mt, tr_pnl = 0, following_count = 0,
      trade_period_days = 30\<rparr>"

definition convert_position :: "MockPosition \<Rightarrow> Position" where
  "convert_position mp =
     \<lparr>symbol = m_symbol mp, side = m_side mp, entry_price = m_entry_price mp,
      mark_price = m_exit_price mp, pnl = m_pnl mp, roe = 0, leverage = 1,
      update_time = 0\<rparr>"

text \<open>\<open>for mock_trader in scenario.traders\<close>: builds \<open>traders\<close> and \<open>positions\<close>.\<close>

fun convert_loop :: "(string \<times> MockPosition list) list \<Rightarrow> MockTrader list
    \<Rightarrow> Trader list \<times> (string \<times> Position list) list
    \<Rightarrow> Trader list \<times> (string \<times> Position list) list" where
  "convert_loop sp [] acc = acc"
| "convert_loop sp (mt # rest) acc =
     (let trader_positions = map convert_position (dict_get sp (m_encrypted_uid mt) [])
      in convert_loop sp rest
           (fst acc @ [convert_trader mt],
            if trader_positions \<noteq> []
            then dict_set (m_encrypted_uid mt) trader_positions (snd acc)
            else snd acc))"

text \<open>The positions of one symbol, collected over all traders in dict order.\<close>

definition symbol_positions :: "(string \<times> Position list) list \<Rightarrow> string \<Rightarrow> Position list" where
  "symbol_positions positions s =
     concat (map (\<lambda>e. filter (\<lambda>pos. symbol pos = s) (snd e)) positions)"

text \<open>
  The body of the trade loop for one consensus record: \<open>None\<close> is a \<open>continue\<close>
  (no positions, or no signal).
\<close>

definition trade_of :: "datetime \<Rightarrow> (string \<times> Position list) list \<Rightarrow> SymbolConsensus
    \<Rightarrow> py_error + Trade option" where
  "trade_of date positions cons =
     (let sps = symbol_positions positions (sc_symbol cons)
      in if sps = [] then Inr None
         else
           then_e (truediv (sum_list (map entry_price sps)) (real (length sps))) (\<lambda>avg_entry.
           then_e (truediv (sum_list (map mark_price sps)) (real (length sps))) (\<lambda>avg_exit.
             if signal cons \<in> set [''STRONG_BUY'', ''BUY''] then
               then_e (truediv (avg_exit - avg_entry) avg_entry) (\<lambda>q.
                 Inr (Some \<lparr>t_symbol = sc_symbol cons, t_side = ''LONG'',
                   t_entry_price = avg_entry, t_exit_price = avg_exit,
                   t_entry_time = date, t_exit_time = date,
                   t_pnl = avg_exit - avg_entry, t_pnl_percent = q * 100,
                   t_signal = signal cons\<rparr>))
             else if signal cons \<in> set [''STRONG_SELL'', ''SELL''] then
               then_e (truediv (avg_entry - avg_exit) avg_entry) (\<lambda>q.
                 Inr (Some \<lparr>t_symbol = sc_symbol cons, t_side = ''SHORT'',
                   t_entry_price = avg_entry, t_exit_price = avg_exit,
                   t_entry_time = date, t_exit_time = date,
                   t_pnl = avg_entry - avg_exit, t_pnl_percent = q * 100,
                   t_signal = signal cons\<rparr>))
             else Inr None)))"

text \<open>\<open>for cons in consensus_list\<close>, appending to \<open>trades\<close>.\<close>

fun trades_loop :: "datetime \<Rightarrow> (string \<times> Position list) list \<Rightarrow> SymbolConsensus list
    \<Rightarrow> Trade list \<Rightarrow> py_error + Trade list" where
  "trades_loop date positions [] acc = Inr acc"
| "trades_loop date positions (cons # rest) acc =
     then_e (trade_of date positions cons) (\<lambda>r.
       case r of None \<Rightarrow> trades_loop date positions rest acc
       | Some t \<Rightarrow> trades_loop date positions rest (acc @ [t]))"

text \<open>\<open>Backtester.run_scenario\<close>; console output is not modelled.\<close>

definition run_scenario :: "real \<Rightarrow> TestScenario \<Rightarrow> py_error + Trade list" where
  "run_scenario min_consensus scenario =
     (let conv = convert_loop (s_positions scenario) (s_traders scenario) ([], []);
          traders = fst conv; positions = snd conv
      in then_e (calculate_consensus min_consensus traders positions None)
           (\<lambda>consensus_list. trades_loop (s_date scenario) positions consensus_list []))"

text \<open>\<open>sum(t.pnl for t in ts) / len(ts) if ts else 0\<close>.\<close>

definition avg_pnl :: "Trade list \<Rightarrow> py_error + real" where
  "avg_pnl ts =
     (if ts \<noteq> [] then truediv (sum_list (map t_pnl ts)) (real (length ts)) else Inr 0)"

text \<open>The drawdown loop; the state is \<open>(max_dd, peak)\<close>.\<close>

fun drawdown_loop :: "Trade list \<Rightarrow> real \<times> real \<Rightarrow> real \<times> real" where
  "drawdown_loop [] st = st"
| "drawdown_loop (t # ts) st =
     (if t_pnl t > 0 then drawdown_loop ts (fst st, snd st + t_pnl t)
      else (let dd = \<bar>t_pnl t\<bar>
            in if dd > fst st then drawdown_loop ts (dd, snd st)
               else drawdown_loop ts st))"

text \<open>\<open>Backtester._calculate_metrics\<close>.\<close>

definition calculate_metrics :: "Trade list \<Rightarrow> py_error + BacktestResult" where
  "calculate_metrics ts =
     (if ts = [] then
        Inr \<lparr>total_trades = 0, winning_trades = 0, losing_trades = 0, win_rate = 0,
          total_pnl = 0, avg_profit = 0, avg_loss = 0, max_drawdown = 0, trades = []\<rparr>
      else
        (let winning = filter (\<lambda>t. t_pnl t > 0) ts;
             losing = filter (\<lambda>t. t_pnl t \<le> 0) ts;
             total = sum_list (map t_pnl ts)
         in then_e (avg_pnl winning) (\<lambda>avg_p.
            then_e (avg_pnl losing) (\<lambda>avg_l.
            let max_dd = fst (drawdown_loop ts (0, 0))
            in then_e (if ts \<noteq> []
                       then then_e (truediv (real (length winning)) (real (length ts)))
                              (\<lambda>q. Inr (q * 100))
                       else Inr 0) (\<lambda>wr.
                 Inr \<lparr>total_trades = length ts, winning_trades = length winning,
                   losing_trades = length losing, win_rate = wr,
                   total_pnl = total, avg_profit = avg_p, avg_loss = avg_l,
                   max_drawdown = max_dd, trades = ts\<rparr>)))))"

section \<open>Specification-level definitions and example data\<close>

definition mean_pnl :: "Trade list \<Rightarrow> real" where
  "mean_pnl ts = (if ts = [] then 0 else sum_list (map t_pnl ts) / real (length ts))"

definition trade_with_pnl :: "real \<Rightarrow> Trade" where
  "trade_with_pnl p =
     \<lparr>t_symbol = ''BTCUSDT'', t_side = ''LONG'', t_entry_price = 100, t_exit_price = 100 + p,
      t_entry_time = 0, t_exit_time = 0, t_pnl = p, t_pnl_percent = p, t_signal = ''BUY''\<rparr>"

definition pairs :: "(string \<times> Position list) list \<Rightarrow> (string \<times> Position) list" where
  "pairs positions = concat (map (\<lambda>e. map (Pair (fst e)) (snd e)) positions)"

definition considered :: "string list option \<Rightarrow> (string \<times> Position list) list
    \<Rightarrow> (string \<times> Position) list" where
  "considered tracked_symbols positions =
     filter (\<lambda>e. \<not> filtered_out tracked_symbols (symbol (snd e))) (pairs positions)"

fun first_seen :: "'a list \<Rightarrow> 'a list" where
  "first_seen [] = []"
| "first_seen (x # xs) = x # filter (\<lambda>y. y \<noteq> x) (first_seen xs)"

definition long_entries :: "(string \<times> Position) list \<Rightarrow> string \<Rightarrow> (string \<times> Position) list" where
  "long_entries es s = filter (\<lambda>e. symbol (snd e) = s \<and> side (snd e) = ''LONG'') es"

definition short_entries :: "(string \<times> Position) list \<Rightarrow> string \<Rightarrow> (string \<times> Position) list" where
  "short_entries es s = filter (\<lambda>e. symbol (snd e) = s \<and> side (snd e) \<noteq> ''LONG'') es"

definition mean_leverage :: "(string \<times> Position) list \<Rightarrow> real" where
  "mean_leverage es =
     (if es = [] then 0
      else real_of_int (sum_list (map (\<lambda>e. leverage (snd e)) es)) / real (length es))"

definition summary :: "real \<Rightarrow> (string \<times> Position) list \<Rightarrow> string \<Rightarrow> SymbolConsensus" where
  "summary T es s =
     (let ls = long_entries es s; ss = short_entries es s;
          total = length ls + length ss
      in \<lparr>sc_symbol = s, long_count = length ls, short_count = length ss,
          total_count = total,
          long_percent = real (length ls) / real total * 100,
          short_percent = real (length ss) / real total * 100,
          avg_leverage_long = mean_leverage ls,
          avg_leverage_short = mean_leverage ss,
          total_long_pnl = sum_list (map (\<lambda>e. pnl (snd e)) ls),
          total_short_pnl = sum_list (map (\<lambda>e. pnl (snd e)) ss),
          signal = get_signal T (real (length ls) / real total * 100)
                     (real (length ss) / real total * 100)\<rparr>)"

definition add_entry :: "string \<times> Position \<Rightarrow> SymbolData \<Rightarrow> SymbolData" where
  "add_entry e =
     (if side (snd e) = ''LONG'' then append_long (fst e) (snd e)
      else append_short (fst e) (snd e))"

definition data_of :: "(string \<times> SymbolData) list \<Rightarrow> string \<Rightarrow> SymbolData" where
  "data_of g s = (case map_of g s of None \<Rightarrow> empty_data | Some d \<Rightarrow> d)"

definition record_of :: "real \<Rightarrow> string \<times> SymbolData \<Rightarrow> SymbolConsensus" where
  "record_of T e =
     (let lc = length (longs (snd e)); sc = length (shorts (snd e)); total = lc + sc
      in \<lparr>sc_symbol = fst e, long_count = lc, short_count = sc, total_count = total,
          long_percent = real lc / real total * 100,
          short_percent = real sc / real total * 100,
          avg_leverage_long =
            (if long_leverage (snd e) = [] then 0
             else real_of_int (sum_list (long_leverage (snd e))) / real (length (long_leverage (snd e)))),
          avg_leverage_short =
            (if short_leverage (snd e) = [] then 0
             else real_of_int (sum_list (short_leverage (snd e))) / real (length (short_leverage (snd e)))),
          total_long_pnl = sum_list (long_pnl (snd e)),
          total_short_pnl = sum_list (short_pnl (snd e)),
          signal = get_signal T (real lc / real total * 100) (real sc / real total * 100)\<rparr>)"

definition has_entries :: "string \<times> SymbolData \<Rightarrow> bool" where
  "has_entries e = (length (longs (snd e)) + length (shorts (snd e)) \<noteq> 0)"

definition position_fixture :: "string \<Rightarrow> string \<Rightarrow> real \<Rightarrow> int \<Rightarrow> Position" where
  "position_fixture sy sd p lev =
     \<lparr>symbol = sy, side = sd, entry_price = 100, mark_price = 110, pnl = p, roe = 0,
      leverage = lev, update_time = 0\<rparr>"

definition example_snapshot :: "(string \<times> Position list) list" where
  "example_snapshot =
     [(''u1'', [position_fixture ''ETHUSDT'' ''LONG'' 5 2,
                position_fixture ''BTCUSDT'' ''LONG'' 10 3]),
      (''u2'', [position_fixture ''BTCUSDT'' ''SHRT'' (-4) 5,
                position_fixture ''SOLUSDT'' ''SHORT'' 1 1])]"

definition example_consensus :: "SymbolConsensus list" where
  "example_consensus =
     [\<lparr>sc_symbol = ''BTCUSDT'', long_count = 1, short_count = 1, total_count = 2,
       long_percent = 50, short_percent = 50, avg_leverage_long = 3, avg_leverage_short = 5,
       total_long_pnl = 10, total_short_pnl = -4, signal = ''NEUTRAL''\<rparr>,
      \<lparr>sc_symbol = ''ETHUSDT'', long_count = 1, short_count = 0, total_count = 1,
       long_percent = 100, short_percent = 0, avg_leverage_long = 2, avg_leverage_short = 0,
       total_long_pnl = 5, total_short_pnl = 0, signal = ''STRONG_BUY''\<rparr>,
      \<lparr>sc_symbol = ''SOLUSDT'', long_count = 0, short_count = 1, total_count = 1,
       long_percent = 0, short_percent = 100, avg_leverage_long = 0, avg_leverage_short = 1,
       total_long_pnl = 0, total_short_pnl = 1, signal = ''STRONG_SELL''\<rparr>]"

definition restrict_positions :: "string list \<Rightarrow> (string \<times> Position list) list
    \<Rightarrow> (string \<times> Position list) list" where
  "restrict_positions ts positions =
     map (\<lambda>e. (fst e, filter (\<lambda>p. symbol p \<in> set ts) (snd e))) positions"

definition is_buy :: "SymbolConsensus \<Rightarrow> bool" where
  "is_buy c = (signal c \<in> set [''STRONG_BUY'', ''BUY''])"

definition is_sell :: "SymbolConsensus \<Rightarrow> bool" where
  "is_sell c = (signal c \<in> set [''STRONG_SELL'', ''SELL''])"

definition actionable :: "SymbolConsensus \<Rightarrow> bool" where
  "actionable c = (signal c \<in> set [''STRONG_BUY'', ''BUY'', ''STRONG_SELL'', ''SELL''])"

definition mean :: "real list \<Rightarrow> real" where
  "mean xs = sum_list xs / real (length xs)"

definition positions_of :: "(string \<times> Position list) list \<Rightarrow> string \<Rightarrow> Position list" where
  "positions_of positions s = filter (\<lambda>p. symbol p = s) (concat (map snd positions))"

definition held_positions :: "TestScenario \<Rightarrow> (string \<times> Position list) list" where
  "held_positions sc =
     map (\<lambda>u. (u, map convert_position (dict_get (s_positions sc) u [])))
       (filter (\<lambda>u. dict_get (s_positions sc) u [] \<noteq> [])
          (first_seen (map m_encrypted_uid (s_traders sc))))"

definition expected_trade :: "datetime \<Rightarrow> (string \<times> Position list) list \<Rightarrow> SymbolConsensus
    \<Rightarrow> Trade" where
  "expected_trade date positions c =
     (let avg_entry = mean (map entry_price (positions_of positions (sc_symbol c)));
          avg_exit = mean (map mark_price (positions_of positions (sc_symbol c)))
      in if signal c \<in> set [''STRONG_BUY'', ''BUY'']
         then \<lparr>t_symbol = sc_symbol c, t_side = ''LONG'', t_entry_price = avg_entry,
                t_exit_price = avg_exit, t_entry_time = date, t_exit_time = date,
                t_pnl = avg_exit - avg_entry,
                t_pnl_percent = (avg_exit - avg_entry) / avg_entry * 100,
                t_signal = signal c\<rparr>
         else \<lparr>t_symbol = sc_symbol c, t_side = ''SHORT'', t_entry_price = avg_entry,
                t_exit_price = avg_exit, t_entry_time = date, t_exit_time = date,
                t_pnl = avg_entry - avg_exit,
                t_pnl_percent = (avg_entry - avg_exit) / avg_entry * 100,
                t_signal = signal c\<rparr>)"

definition zero_entry_scenario :: TestScenario where
  "zero_entry_scenario =
     \<lparr>s_name = ''zero entry'', s_description = ''one long position entered at price 0'',
      s_date = 0,
      s_traders = [\<lparr>m_encrypted_uid = ''t1'', m_nick_name = ''A'', m_rank = 1, m_roi = 100,
                    m_win_rate = 60\<rparr>],
      s_positions = [(''t1'', [\<lparr>m_symbol = ''BTCUSDT'', m_side = ''LONG'', m_entry_price = 0,
                                m_exit_price = 100, m_entry_time = 0, m_exit_time = 0,
                                m_pnl = 0\<rparr>])],
      s_expected_consensus = [(''BTCUSDT'', 100)]\<rparr>"

text \<open>Scenario 1 of \<open>test_data.py\<close> (\<open>datetime.now()\<close> fixed to 0).\<close>

definition mock_trader :: "string \<Rightarrow> string \<Rightarrow> int \<Rightarrow> real \<Rightarrow> real \<Rightarrow> MockTrader" where
  "mock_trader u n r ro w =
     \<lparr>m_encrypted_uid = u, m_nick_name = n, m_rank = r, m_roi = ro, m_win_rate = w\<rparr>"

definition mock_position :: "string \<Rightarrow> string \<Rightarrow> real \<Rightarrow> real \<Rightarrow> real \<Rightarrow> MockPosition" where
  "mock_position sy sd en ex p =
     \<lparr>m_symbol = sy, m_side = sd, m_entry_price = en, m_exit_price = ex, m_entry_time = 0,
      m_exit_time = 0, m_pnl = p\<rparr>"

definition btc_bull_run :: TestScenario where
  "btc_bull_run =
     \<lparr>s_name = ''BTC Bull Run'', s_description = ''BTC 40k to 44k'', s_date = 0,
      s_traders =
        [mock_trader ''t1'' ''ProTrader1'' 1 250 70, mock_trader ''t2'' ''CryptoKing'' 2 200 65,
         mock_trader ''t3'' ''WhaleHunter'' 3 180 62, mock_trader ''t4'' ''AlphaBot'' 4 150 58,
         mock_trader ''t5'' ''TrendMaster'' 5 140 60],
      s_positions =
        [(''t1'', [mock_position ''BTCUSDT'' ''LONG'' 40000 44000 10]),
         (''t2'', [mock_position ''BTCUSDT'' ''LONG'' 40200 44000 9.45]),
         (''t3'', [mock_position ''BTCUSDT'' ''LONG'' 39800 44000 10.55]),
         (''t4'', [mock_position ''BTCUSDT'' ''SHORT'' 41000 44000 (-7.3)]),
         (''t5'', [mock_position ''BTCUSDT'' ''LONG'' 40500 44000 8.6])],
      s_expected_consensus = [(''BTCUSDT'', 80)]\<rparr>"

section \<open>The signal classifier\<close>

text \<open>
  C1. With the clauses read in order, the first that matches deciding: the classifier
  returns STRONG_BUY when \<open>long_percent \<ge> 70\<close>, whatever the threshold; otherwise BUY
  when \<open>T \<le> long_percent < 70\<close>; otherwise STRONG_SELL when \<open>short_percent \<ge> 70\<close>;
  otherwise SELL when \<open>T \<le> short_percent < 70\<close>; otherwise NEUTRAL.
\<close>

theorem get_signal_first_match:
  "get_signal T lp sp =
     (if lp \<ge> 70 then ''STRONG_BUY''
      else if T \<le> lp \<and> lp < 70 then ''BUY''
      else if sp \<ge> 70 then ''STRONG_SELL''
      else if T \<le> sp \<and> sp < 70 then ''SELL''
      else ''NEUTRAL'')"
  by (simp add: get_signal_def)

lemma then_e_Inr: "then_e (Inr v) f = f v"
  by (simp add: then_e_def)

lemma then_e_Inl: "then_e (Inl e) f = Inl e"
  by (simp add: then_e_def)

lemma truediv_Inr: "b \<noteq> 0 \<Longrightarrow> truediv a b = Inr (a / b)"
  by (simp add: truediv_def)

lemma avg_pnl_Inr: "avg_pnl ts = Inr (mean_pnl ts)"
  by (simp add: avg_pnl_def mean_pnl_def truediv_Inr)

lemma drawdown_loop_fst:
  "fst (drawdown_loop ts st) =
     fold max (map (\<lambda>t. \<bar>t_pnl t\<bar>) (filter (\<lambda>t. t_pnl t \<le> 0) ts)) (fst st)"
proof (induction ts arbitrary: st)
  case Nil
  show ?case by simp
next
  case (Cons t ts)
  show ?case
  proof (cases "t_pnl t > 0")
    case True
    then show ?thesis using Cons.IH [of "(fst st, snd st + t_pnl t)"] by simp
  next
    case False
    then show ?thesis
      using Cons.IH [of "(\<bar>t_pnl t\<bar>, snd st)"] Cons.IH [of st]
      by (simp add: Let_def max_def)
  qed
qed

lemma fold_max_Max:
  fixes a :: real
  shows "fold max xs a = Max (insert a (set xs))"
proof (induction xs arbitrary: a)
  case Nil
  show ?case by simp
next
  case (Cons x xs)
  have "fold max (x # xs) a = Max (insert (max x a) (set xs))"
    using Cons.IH [of "max x a"] by simp
  also have "\<dots> = Max (insert a (set (x # xs)))"
  proof (cases "set xs = {}")
    case True
    then show ?thesis by (simp add: max.commute)
  next
    case False
    then show ?thesis by (simp add: max.assoc max.commute max.left_commute insert_commute)
  qed
  finally show ?case .
qed

lemma calculate_metrics_Inr:
  "ts \<noteq> [] \<Longrightarrow> calculate_metrics ts =
     Inr \<lparr>total_trades = length ts,
          winning_trades = length (filter (\<lambda>t. t_pnl t > 0) ts),
          losing_trades = length (filter (\<lambda>t. t_pnl t \<le> 0) ts),
          win_rate = real (length (filter (\<lambda>t. t_pnl t > 0) ts)) / real (length ts) * 100,
          total_pnl = sum_list (map t_pnl ts),
          avg_profit = mean_pnl (filter (\<lambda>t. t_pnl t > 0) ts),
          avg_loss = mean_pnl (filter (\<lambda>t. t_pnl t \<le> 0) ts),
          max_drawdown = fst (drawdown_loop ts (0, 0)), trades = ts\<rparr>"
  by (simp add: calculate_metrics_def Let_def avg_pnl_Inr then_e_Inr truediv_Inr)

lemma max_dd_losers:
  "fst (drawdown_loop ts (0, 0)) =
     (if filter (\<lambda>t. t_pnl t \<le> 0) ts = [] then 0
      else Max (set (map (\<lambda>t. \<bar>t_pnl t\<bar>) (filter (\<lambda>t. t_pnl t \<le> 0) ts))))"
proof (cases "filter (\<lambda>t. t_pnl t \<le> 0) ts = []")
  case True
  then show ?thesis by (simp add: drawdown_loop_fst)
next
  case False
  let ?S = "set (map (\<lambda>t. \<bar>t_pnl t\<bar>) (filter (\<lambda>t. t_pnl t \<le> 0) ts))"
  have ne: "?S \<noteq> {}" using False by (auto simp add: filter_empty_conv)
  have fin: "finite ?S" by simp
  have "Max ?S \<in> ?S" using Max_in [OF fin ne] .
  then have "0 \<le> Max ?S" by auto
  then have "Max (insert 0 ?S) = Max ?S"
    using Max_insert [OF fin ne, of 0] by (simp add: max_def)
  then show ?thesis using False by (simp add: drawdown_loop_fst fold_max_Max)
qed

lemma calculate_metrics_Nil:
  "calculate_metrics [] =
     Inr \<lparr>total_trades = 0, winning_trades = 0, losing_trades = 0, win_rate = 0,
          total_pnl = 0, avg_profit = 0, avg_loss = 0, max_drawdown = 0, trades = []\<rparr>"
  by (simp add: calculate_metrics_def)

lemma abs_losers_map:
  "map (\<lambda>t. \<bar>t_pnl t\<bar>) (filter (\<lambda>t. t_pnl t \<le> 0) ts) =
     map abs (filter (\<lambda>p. p \<le> 0) (map t_pnl ts))"
  by (induction ts) simp_all

text \<open>
  C3. The computed \<open>max_drawdown\<close> is the largest absolute PnL among the trades with
  \<open>pnl \<le> 0\<close>, and 0 when no trade has \<open>pnl \<le> 0\<close> (for the empty list too); for the
  PnLs \<open>[+10, -5, -8, +3]\<close> it is 8.
\<close>

theorem max_drawdown_largest_loss:
  "(\<exists>r. calculate_metrics ts = Inr r \<and>
        max_drawdown r =
          (if filter (\<lambda>t. t_pnl t \<le> 0) ts = [] then 0
           else Max (set (map (\<lambda>t. \<bar>t_pnl t\<bar>) (filter (\<lambda>t. t_pnl t \<le> 0) ts))))) \<and>
   (map t_pnl ts = [10, -5, -8, 3] \<longrightarrow>
      (\<exists>r. calculate_metrics ts = Inr r \<and> max_drawdown r = 8))"
proof (intro conjI impI)
  show general: "\<exists>r. calculate_metrics ts = Inr r \<and>
        max_drawdown r =
          (if filter (\<lambda>t. t_pnl t \<le> 0) ts = [] then 0
           else Max (set (map (\<lambda>t. \<bar>t_pnl t\<bar>) (filter (\<lambda>t. t_pnl t \<le> 0) ts))))"
  proof (cases "ts = []")
    case True
    then show ?thesis by (simp add: calculate_metrics_Nil)
  next
    case False
    then show ?thesis
      using max_dd_losers [of ts] by (simp add: calculate_metrics_Inr)
  qed
  assume pnls: "map t_pnl ts = [10, -5, -8, 3]"
  then have "ts \<noteq> []" by auto
  moreover have "filter (\<lambda>t. t_pnl t \<le> 0) ts \<noteq> []"
  proof
    assume "filter (\<lambda>t. t_pnl t \<le> 0) ts = []"
    then have "map abs (filter (\<lambda>p. p \<le> 0) (map t_pnl ts)) = []"
      unfolding abs_losers_map [symmetric] by simp
    then show False unfolding pnls by simp
  qed
  then have "fst (drawdown_loop ts (0, 0)) = Max (set (map abs (filter (\<lambda>p. p \<le> 0) (map t_pnl ts))))"
    unfolding max_dd_losers abs_losers_map by simp
  then have "fst (drawdown_loop ts (0, 0)) = 8"
    unfolding pnls by simp
  ultimately show "\<exists>r. calculate_metrics ts = Inr r \<and> max_drawdown r = 8"
    by (simp add: calculate_metrics_Inr)
qed

theorem max_drawdown_largest_loss_witness:
  "map t_pnl (map trade_with_pnl [10, -5, -8, 3]) = [10, -5, -8, 3] \<and>
   (\<exists>r. calculate_metrics (map trade_with_pnl [10, -5, -8, 3]) = Inr r \<and> max_drawdown r = 8)"
proof -
  have h: "map t_pnl (map trade_with_pnl [10, -5, -8, 3]) = [10, -5, -8, 3]"
    by (simp add: trade_with_pnl_def)
  have imp: "map t_pnl (map trade_with_pnl [10, -5, -8, 3]) = [10, -5, -8, 3] \<longrightarrow>
      (\<exists>r. calculate_metrics (map trade_with_pnl [10, -5, -8, 3]) = Inr r \<and> max_drawdown r = 8)"
    using max_drawdown_largest_loss [of "map trade_with_pnl [10, -5, -8, 3]"] by (rule conjunct2)
  show ?thesis
    by (intro conjI) (rule h, rule mp [OF imp h])
qed

text \<open>
  C6. For a non-empty trade list the winners are the trades with \<open>pnl > 0\<close> and the losers
  those with \<open>pnl \<le> 0\<close>: the losers are the trades with negative PnL together with those
  of PnL zero, every trade is one or the other, and \<open>win_rate\<close> is the number of winners
  over the number of trades, times 100.
\<close>

theorem winners_losers_boundary:
  "ts \<noteq> [] \<Longrightarrow>
     \<exists>r. calculate_metrics ts = Inr r \<and>
       winning_trades r = length (filter (\<lambda>t. t_pnl t > 0) ts) \<and>
       losing_trades r = length (filter (\<lambda>t. t_pnl t \<le> 0) ts) \<and>
       losing_trades r =
         length (filter (\<lambda>t. t_pnl t < 0) ts) + length (filter (\<lambda>t. t_pnl t = 0) ts) \<and>
       winning_trades r + losing_trades r = total_trades r \<and>
       total_trades r = length ts \<and>
       win_rate r = real (length (filter (\<lambda>t. t_pnl t > 0) ts)) / real (length ts) * 100"
proof -
  assume ne: "ts \<noteq> []"
  have split: "length (filter (\<lambda>t. t_pnl t \<le> 0) ts) =
      length (filter (\<lambda>t. t_pnl t < 0) ts) + length (filter (\<lambda>t. t_pnl t = 0) ts)"
    by (induction ts) auto
  have part: "length (filter (\<lambda>t. t_pnl t > 0) ts) + length (filter (\<lambda>t. t_pnl t \<le> 0) ts)
      = length ts"
    by (induction ts) auto
  show ?thesis
    using split part by (simp add: calculate_metrics_Inr [OF ne])
qed

theorem winners_losers_boundary_witness:
  "[trade_with_pnl 5, trade_with_pnl 0] \<noteq> [] \<and>
   (\<exists>r. calculate_metrics [trade_with_pnl 5, trade_with_pnl 0] = Inr r \<and>
      winning_trades r = 1 \<and> losing_trades r = 1 \<and> win_rate r = 50)"
proof -
  have h: "[trade_with_pnl 5, trade_with_pnl 0] \<noteq> []" by simp
  show ?thesis
    using winners_losers_boundary [OF h] by (auto simp add: trade_with_pnl_def)
qed

text \<open>
  C9. On the empty trade list the metrics calculator returns the zeroed result with an empty
  trade list; on every trade list it returns a result (no division error), and the average
  of an empty winner or loser set is 0.
\<close>

theorem calculate_metrics_empty_never_raises:
  "calculate_metrics [] =
     Inr \<lparr>total_trades = 0, winning_trades = 0, losing_trades = 0, win_rate = 0,
          total_pnl = 0, avg_profit = 0, avg_loss = 0, max_drawdown = 0, trades = []\<rparr> \<and>
   (\<exists>r. calculate_metrics ts = Inr r \<and>
      (filter (\<lambda>t. t_pnl t > 0) ts = [] \<longrightarrow> avg_profit r = 0) \<and>
      (filter (\<lambda>t. t_pnl t \<le> 0) ts = [] \<longrightarrow> avg_loss r = 0))"
proof (cases "ts = []")
  case True
  then show ?thesis by (simp add: calculate_metrics_Nil)
next
  case False
  then show ?thesis
    by (simp add: calculate_metrics_Nil calculate_metrics_Inr mean_pnl_def)
qed

theorem calculate_metrics_empty_never_raises_witness:
  "filter (\<lambda>t. t_pnl t > 0) [trade_with_pnl (-5)] = [] \<and>
   (\<exists>r. calculate_metrics [trade_with_pnl (-5)] = Inr r \<and> avg_profit r = 0) \<and>
   filter (\<lambda>t. t_pnl t \<le> 0) [trade_with_pnl 5] = [] \<and>
   (\<exists>r. calculate_metrics [trade_with_pnl 5] = Inr r \<and> avg_loss r = 0)"
proof -
  have h1: "filter (\<lambda>t. t_pnl t > 0) [trade_with_pnl (-5)] = []"
    by (simp add: trade_with_pnl_def)
  have h2: "filter (\<lambda>t. t_pnl t \<le> 0) [trade_with_pnl 5] = []"
    by (simp add: trade_with_pnl_def)
  obtain r1 where r1: "calculate_metrics [trade_with_pnl (-5)] = Inr r1"
      "filter (\<lambda>t. t_pnl t > 0) [trade_with_pnl (-5)] = [] \<longrightarrow> avg_profit r1 = 0"
    using calculate_metrics_empty_never_raises [of "[trade_with_pnl (-5)]"] by blast
  obtain r2 where r2: "calculate_metrics [trade_with_pnl 5] = Inr r2"
      "filter (\<lambda>t. t_pnl t \<le> 0) [trade_with_pnl 5] = [] \<longrightarrow> avg_loss r2 = 0"
    using calculate_metrics_empty_never_raises [of "[trade_with_pnl 5]"] by blast
  have "avg_profit r1 = 0" using r1(2) h1 by (rule mp)
  moreover have "avg_loss r2 = 0" using r2(2) h2 by (rule mp)
  ultimately show ?thesis using h1 h2 r1(1) r2(1) by blast
qed

subsection \<open>Grouping\<close>

lemma group_trader_fold:
  "group_trader tr uid ps sd = fold (\<lambda>e. group_position tr (fst e) (snd e)) (map (Pair uid) ps) sd"
  by (induction ps arbitrary: sd) simp_all

lemma group_all_fold:
  "group_all tr positions sd = fold (\<lambda>e. group_position tr (fst e) (snd e)) (pairs positions) sd"
proof (induction positions arbitrary: sd)
  case Nil
  show ?case by (simp add: pairs_def)
next
  case (Cons a positions)
  obtain uid ps where a: "a = (uid, ps)" by (cases a)
  show ?case
    using Cons.IH by (simp add: a pairs_def group_trader_fold)
qed

lemma fold_group_considered:
  "fold (\<lambda>e. group_position tr (fst e) (snd e)) es sd =
     fold (\<lambda>e. dd_update (symbol (snd e)) (add_entry e))
       (filter (\<lambda>e. \<not> filtered_out tr (symbol (snd e))) es) sd"
  by (induction es arbitrary: sd) (simp_all add: group_position_def add_entry_def)

lemma group_all_considered:
  "group_all tr positions sd =
     fold (\<lambda>e. dd_update (symbol (snd e)) (add_entry e)) (considered tr positions) sd"
  by (simp add: group_all_fold fold_group_considered considered_def)

lemma keys_dd_update:
  "map fst (dd_update k f g) = (if k \<in> set (map fst g) then map fst g else map fst g @ [k])"
  by (induction g) (auto simp add: rev_image_eqI)

lemma data_of_dd_update:
  "data_of (dd_update k f g) s = (if s = k then f (data_of g s) else data_of g s)"
  by (induction g) (auto simp add: data_of_def)

lemma set_first_seen: "set (first_seen xs) = set xs"
  by (induction xs) auto

lemma distinct_first_seen: "distinct (first_seen xs)"
  by (induction xs) (auto simp add: set_first_seen)

lemma keys_fold:
  "map fst (fold (\<lambda>e. dd_update (symbol (snd e)) (add_entry e)) es g) =
     map fst g @ filter (\<lambda>s. s \<notin> set (map fst g)) (first_seen (map (\<lambda>e. symbol (snd e)) es))"
proof (induction es arbitrary: g)
  case Nil
  show ?case by simp
next
  case (Cons e es)
  let ?k = "symbol (snd e)"
  let ?g' = "dd_update ?k (add_entry e) g"
  let ?fs = "first_seen (map (\<lambda>e. symbol (snd e)) es)"
  have IH: "map fst (fold (\<lambda>e. dd_update (symbol (snd e)) (add_entry e)) es ?g') =
     map fst ?g' @ filter (\<lambda>s. s \<notin> set (map fst ?g')) ?fs"
    by (rule Cons.IH)
  show ?case
  proof (cases "?k \<in> set (map fst g)")
    case True
    have "filter (\<lambda>s. s \<notin> set (map fst g)) (filter (\<lambda>y. y \<noteq> ?k) ?fs) =
          filter (\<lambda>s. s \<notin> set (map fst g)) ?fs"
      using True by (auto intro: filter_cong)
    then show ?thesis using True IH by (simp add: keys_dd_update)
  next
    case False
    have "filter (\<lambda>s. s \<notin> set (map fst g)) (filter (\<lambda>y. y \<noteq> ?k) ?fs) =
          filter (\<lambda>s. s \<notin> set (map fst g @ [?k])) ?fs"
      by (auto intro: filter_cong)
    then show ?thesis using False IH by (simp add: keys_dd_update)
  qed
qed

lemma data_fold:
  "data_of (fold (\<lambda>e. dd_update (symbol (snd e)) (add_entry e)) es g) s =
     fold add_entry (filter (\<lambda>e. symbol (snd e) = s) es) (data_of g s)"
  by (induction es arbitrary: g) (simp_all add: data_of_dd_update)

lemma fold_add_entry_fields:
  "longs (fold add_entry es d) = longs d @ map fst (filter (\<lambda>e. side (snd e) = ''LONG'') es)"
  "shorts (fold add_entry es d) = shorts d @ map fst (filter (\<lambda>e. side (snd e) \<noteq> ''LONG'') es)"
  "long_pnl (fold add_entry es d) =
     long_pnl d @ map (\<lambda>e. pnl (snd e)) (filter (\<lambda>e. side (snd e) = ''LONG'') es)"
  "short_pnl (fold add_entry es d) =
     short_pnl d @ map (\<lambda>e. pnl (snd e)) (filter (\<lambda>e. side (snd e) \<noteq> ''LONG'') es)"
  "long_leverage (fold add_entry es d) =
     long_leverage d @ map (\<lambda>e. leverage (snd e)) (filter (\<lambda>e. side (snd e) = ''LONG'') es)"
  "short_leverage (fold add_entry es d) =
     short_leverage d @ map (\<lambda>e. leverage (snd e)) (filter (\<lambda>e. side (snd e) \<noteq> ''LONG'') es)"
  by (induction es arbitrary: d;
      simp add: add_entry_def append_long_def append_short_def)+

lemma distinct_keys_dd_update:
  "distinct (map fst g) \<Longrightarrow> distinct (map fst (dd_update k f g))"
  by (simp add: keys_dd_update)

lemma distinct_keys_fold:
  "distinct (map fst g) \<Longrightarrow>
     distinct (map fst (fold (\<lambda>e. dd_update (symbol (snd e)) (add_entry e)) es g))"
  by (induction es arbitrary: g) (simp_all add: distinct_keys_dd_update)

lemma distinct_keys_data_of:
  "distinct (map fst g) \<Longrightarrow> g = map (\<lambda>s. (s, data_of g s)) (map fst g)"
proof (induction g)
  case Nil
  show ?case by simp
next
  case (Cons a g)
  obtain k d where a: "a = (k, d)" by (cases a)
  have k: "k \<notin> fst ` set g" and dist: "distinct (map fst g)"
    using Cons.prems by (simp_all add: a)
  have hd: "data_of ((k, d) # g) k = d"
    by (simp add: data_of_def)
  have "\<forall>s \<in> set (map fst g). data_of ((k, d) # g) s = data_of g s"
    using k by (auto simp add: data_of_def)
  then have "map (\<lambda>s. (s, data_of ((k, d) # g) s)) (map fst g) =
             map (\<lambda>s. (s, data_of g s)) (map fst g)"
    by (intro map_cong) auto
  also have "\<dots> = g"
    using Cons.IH [OF dist] by simp
  finally have tl: "map (\<lambda>s. (s, data_of ((k, d) # g) s)) (map fst g) = g" .
  show ?case
    unfolding a using hd tl by simp
qed

lemma avg_leverage_Inr:
  "avg_leverage xs = Inr (if xs = [] then 0 else real_of_int (sum_list xs) / real (length xs))"
  by (simp add: avg_leverage_def truediv_Inr)

lemma consensus_of_Inr:
  "consensus_of T e = Inr (if has_entries e then Some (record_of T e) else None)"
proof (cases "has_entries e")
  case True
  then have nz: "real (length (longs (snd e)) + length (shorts (snd e))) \<noteq> 0"
    unfolding has_entries_def by (simp del: of_nat_add)
  show ?thesis
    using True nz
    by (simp add: consensus_of_def Let_def has_entries_def record_of_def
        truediv_Inr avg_leverage_Inr then_e_Inr del: of_nat_add)
next
  case False
  then show ?thesis by (simp add: consensus_of_def Let_def has_entries_def)
qed

lemma consensus_loop_Inr:
  "consensus_loop T g acc = Inr (acc @ map (record_of T) (filter has_entries g))"
  by (induction g arbitrary: acc) (simp_all add: consensus_of_Inr then_e_Inr)

lemma data_of_Nil: "data_of [] s = empty_data"
  by (simp add: data_of_def)

lemma length_entries:
  "length (long_entries es s) + length (short_entries es s) =
     length (filter (\<lambda>e. symbol (snd e) = s) es)"
  by (induction es) (simp_all add: long_entries_def short_entries_def)

lemma record_of_summary:
  "record_of T (s, fold add_entry (filter (\<lambda>e. symbol (snd e) = s) es) empty_data) =
     summary T es s"
  by (simp add: record_of_def summary_def Let_def fold_add_entry_fields long_entries_def
      short_entries_def empty_data_def mean_leverage_def)

lemma has_entries_fold:
  "s \<in> set (map (\<lambda>e. symbol (snd e)) es) \<Longrightarrow>
     has_entries (s, fold add_entry (filter (\<lambda>e. symbol (snd e) = s) es) empty_data)"
proof -
  assume "s \<in> set (map (\<lambda>e. symbol (snd e)) es)"
  then have "filter (\<lambda>e. symbol (snd e) = s) es \<noteq> []"
    by (auto simp add: filter_empty_conv)
  then have "length (long_entries es s) + length (short_entries es s) \<noteq> 0"
    unfolding length_entries by simp
  then show ?thesis
    by (simp add: has_entries_def fold_add_entry_fields long_entries_def short_entries_def
        empty_data_def)
qed

lemma group_all_final:
  "group_all tr positions [] =
     map (\<lambda>s. (s, fold add_entry (filter (\<lambda>e. symbol (snd e) = s) (considered tr positions)) empty_data))
       (first_seen (map (\<lambda>e. symbol (snd e)) (considered tr positions)))"
proof -
  let ?es = "considered tr positions"
  let ?g = "group_all tr positions []"
  have keys: "map fst ?g = first_seen (map (\<lambda>e. symbol (snd e)) ?es)"
    by (simp add: group_all_considered keys_fold)
  have dist: "distinct (map fst ?g)"
    unfolding keys by (rule distinct_first_seen)
  have data: "data_of ?g s = fold add_entry (filter (\<lambda>e. symbol (snd e) = s) ?es) empty_data" for s
    by (simp add: group_all_considered data_fold data_of_Nil)
  have "?g = map (\<lambda>s. (s, data_of ?g s)) (map fst ?g)"
    by (rule distinct_keys_data_of [OF dist])
  then show ?thesis
    unfolding keys data .
qed

lemma consensus_unsorted:
  "consensus_loop T (group_all tr positions []) [] =
     Inr (map (summary T (considered tr positions))
            (first_seen (map (\<lambda>e. symbol (snd e)) (considered tr positions))))"
proof -
  let ?es = "considered tr positions"
  let ?ks = "first_seen (map (\<lambda>e. symbol (snd e)) ?es)"
  let ?f = "\<lambda>s. (s, fold add_entry (filter (\<lambda>e. symbol (snd e) = s) ?es) empty_data)"
  have all: "\<forall>e \<in> set (map ?f ?ks). has_entries e"
    using has_entries_fold [of _ ?es] by (auto simp add: set_first_seen)
  then have "filter has_entries (map ?f ?ks) = map ?f ?ks"
    by (simp only: filter_True)
  then show ?thesis
    by (simp add: group_all_final consensus_loop_Inr record_of_summary comp_def)
qed

lemma calculate_consensus_Inr:
  "calculate_consensus T traders positions tr =
     Inr (sort_total_desc (map (summary T (considered tr positions))
            (first_seen (map (\<lambda>e. symbol (snd e)) (considered tr positions)))))"
  by (simp add: calculate_consensus_def consensus_unsorted then_e_Inr)

lemma example_consensus_run:
  "calculate_consensus 60 [] example_snapshot None = Inr example_consensus"
  by (simp add: calculate_consensus_def example_snapshot_def position_fixture_def
      group_position_def filtered_out_def append_long_def append_short_def empty_data_def
      consensus_of_def Let_def truediv_def then_e_def avg_leverage_def get_signal_def
      sort_total_desc_def example_consensus_def)

lemma set_sort_total_desc: "set (sort_total_desc cs) = set cs"
  by (simp add: sort_total_desc_def)

lemma summary_fields:
  "sc_symbol (summary T es s) = s"
  "long_count (summary T es s) = length (long_entries es s)"
  "short_count (summary T es s) = length (short_entries es s)"
  "total_count (summary T es s) = length (long_entries es s) + length (short_entries es s)"
  "long_percent (summary T es s) =
     real (length (long_entries es s)) /
       real (length (long_entries es s) + length (short_entries es s)) * 100"
  "short_percent (summary T es s) =
     real (length (short_entries es s)) /
       real (length (long_entries es s) + length (short_entries es s)) * 100"
  "avg_leverage_long (summary T es s) = mean_leverage (long_entries es s)"
  "avg_leverage_short (summary T es s) = mean_leverage (short_entries es s)"
  "total_long_pnl (summary T es s) = sum_list (map (\<lambda>e. pnl (snd e)) (long_entries es s))"
  "total_short_pnl (summary T es s) = sum_list (map (\<lambda>e. pnl (snd e)) (short_entries es s))"
  by (simp_all add: summary_def Let_def del: of_nat_add)

lemma output_records:
  assumes "calculate_consensus T traders positions tr = Inr out" and "c \<in> set out"
  shows "\<exists>s \<in> set (map (\<lambda>e. symbol (snd e)) (considered tr positions)).
           c = summary T (considered tr positions) s"
  using assms
  by (auto simp add: calculate_consensus_Inr set_sort_total_desc set_first_seen)

lemma entries_nonempty:
  "s \<in> set (map (\<lambda>e. symbol (snd e)) es) \<Longrightarrow>
     length (long_entries es s) + length (short_entries es s) \<noteq> 0"
  unfolding length_entries by (auto simp add: filter_empty_conv)

lemma percent_real:
  fixes x y :: real
  assumes "x + y \<noteq> 0"
  shows "x / (x + y) * 100 + y / (x + y) * 100 = 100"
proof -
  have "x / (x + y) * 100 + y / (x + y) * 100 = (x + y) / (x + y) * 100"
    by (simp only: add_divide_distrib distrib_right)
  also have "\<dots> = 100" using assms by simp
  finally show ?thesis .
qed

lemma percent_sum:
  assumes "a + b \<noteq> (0::nat)"
  shows "real a / real (a + b) * 100 + real b / real (a + b) * 100 = 100"
proof -
  have nz: "real a + real b \<noteq> 0" using assms by (simp add: add_nonneg_eq_0_iff)
  show ?thesis
    unfolding of_nat_add by (rule percent_real [OF nz])
qed

text \<open>
  C2. \<open>calculate_consensus\<close> returns on every snapshot, and every record of its output has
  \<open>long_count + short_count = total_count\<close>, \<open>long_percent + short_percent = 100\<close>
  (exactly, in real arithmetic) and \<open>total_count \<noteq> 0\<close>.
\<close>

theorem consensus_record_invariants:
  "\<exists>out. calculate_consensus T traders positions tr = Inr out \<and>
     (\<forall>c \<in> set out.
        long_count c + short_count c = total_count c \<and>
        long_percent c + short_percent c = 100 \<and>
        total_count c \<noteq> 0)"
proof -
  obtain out where out: "calculate_consensus T traders positions tr = Inr out"
    by (simp add: calculate_consensus_Inr)
  have "long_count c + short_count c = total_count c \<and>
        long_percent c + short_percent c = 100 \<and> total_count c \<noteq> 0"
    if cin: "c \<in> set out" for c
  proof -
    let ?es = "considered tr positions"
    obtain s where s: "s \<in> set (map (\<lambda>e. symbol (snd e)) ?es)" and c: "c = summary T ?es s"
      using output_records [OF out cin] by blast
    let ?l = "length (long_entries ?es s)"
    let ?s = "length (short_entries ?es s)"
    have nz: "?l + ?s \<noteq> 0" by (rule entries_nonempty [OF s])
    show ?thesis
      unfolding c summary_fields using nz percent_sum [OF nz] by blast
  qed
  then show ?thesis using out by blast
qed

theorem consensus_record_invariants_witness:
  "\<exists>out. calculate_consensus 60 [] example_snapshot None = Inr out \<and> length out = 3 \<and>
     (\<forall>c \<in> set out.
        long_count c + short_count c = total_count c \<and>
        long_percent c + short_percent c = 100 \<and>
        total_count c \<noteq> 0)"
  using consensus_record_invariants [of 60 "[]" example_snapshot None]
  by (auto simp add: example_consensus_run example_consensus_def)

subsection \<open>Order of the output\<close>

lemma sorted_sort_total_desc:
  "sorted_wrt (\<lambda>a b. total_count a \<ge> total_count b) (sort_total_desc cs)"
proof -
  have "sorted (map (\<lambda>c. - int (total_count c)) (sort_total_desc cs))"
    unfolding sort_total_desc_def by (rule sorted_sort_key)
  then show ?thesis
    by (simp add: sorted_map)
qed

lemma stable_sort_total_desc:
  "filter (\<lambda>c. total_count c = k) (sort_total_desc cs) = filter (\<lambda>c. total_count c = k) cs"
proof -
  have "filter (\<lambda>c. - int (total_count c) = - int k) (sort_key (\<lambda>c. - int (total_count c)) cs) =
        filter (\<lambda>c. - int (total_count c) = - int k) cs"
    by (rule sort_key_stable)
  then show ?thesis
    by (simp add: sort_total_desc_def)
qed

lemma total_count_summary:
  "total_count (summary T es s) = length (filter (\<lambda>e. symbol (snd e) = s) es)"
  by (simp add: summary_fields length_entries)

text \<open>
  C7. The output list is sorted by \<open>total_count\<close>, largest first, and the records of any
  one \<open>total_count\<close> stand in the order in which their symbols are first seen when the
  positions that pass the symbol filter are traversed (trader by trader, position by
  position), which is the insertion order of \<open>symbol_data\<close>.
\<close>

theorem consensus_sorted_stable:
  "\<exists>out. calculate_consensus T traders positions tr = Inr out \<and>
     sorted_wrt (\<lambda>a b. total_count a \<ge> total_count b) out \<and>
     (\<forall>k. map sc_symbol (filter (\<lambda>c. total_count c = k) out) =
          filter (\<lambda>s. length (filter (\<lambda>e. symbol (snd e) = s) (considered tr positions)) = k)
            (first_seen (map (\<lambda>e. symbol (snd e)) (considered tr positions))))"
proof -
  let ?es = "considered tr positions"
  let ?ks = "first_seen (map (\<lambda>e. symbol (snd e)) ?es)"
  let ?out = "sort_total_desc (map (summary T ?es) ?ks)"
  have out: "calculate_consensus T traders positions tr = Inr ?out"
    by (rule calculate_consensus_Inr)
  have "map sc_symbol (filter (\<lambda>c. total_count c = k) ?out) =
        filter (\<lambda>s. length (filter (\<lambda>e. symbol (snd e) = s) ?es) = k) ?ks" for k
  proof -
    have "map sc_symbol (filter (\<lambda>c. total_count c = k) ?out) =
          map sc_symbol (filter (\<lambda>c. total_count c = k) (map (summary T ?es) ?ks))"
      by (simp only: stable_sort_total_desc)
    also have "\<dots> = map (\<lambda>s. sc_symbol (summary T ?es s))
                     (filter (\<lambda>s. total_count (summary T ?es s) = k) ?ks)"
      by (simp add: filter_map comp_def)
    also have "\<dots> = filter (\<lambda>s. length (filter (\<lambda>e. symbol (snd e) = s) ?es) = k) ?ks"
      by (simp add: summary_fields(1) total_count_summary)
    finally show ?thesis .
  qed
  then show ?thesis
    using out sorted_sort_total_desc by blast
qed

theorem consensus_sorted_stable_witness:
  "\<exists>out. calculate_consensus 60 [] example_snapshot None = Inr out \<and>
     map total_count out = [2, 1, 1] \<and>
     map sc_symbol (filter (\<lambda>c. total_count c = 1) out) = [''ETHUSDT'', ''SOLUSDT''] \<and>
     first_seen (map (\<lambda>e. symbol (snd e)) (considered None example_snapshot)) =
       [''ETHUSDT'', ''BTCUSDT'', ''SOLUSDT'']"
proof -
  have fs: "first_seen (map (\<lambda>e. symbol (snd e)) (considered None example_snapshot)) =
       [''ETHUSDT'', ''BTCUSDT'', ''SOLUSDT'']"
    by (simp add: considered_def pairs_def filtered_out_def example_snapshot_def
        position_fixture_def)
  obtain out where out: "calculate_consensus 60 [] example_snapshot None = Inr out"
    and st: "\<forall>k. map sc_symbol (filter (\<lambda>c. total_count c = k) out) =
          filter (\<lambda>s. length (filter (\<lambda>e. symbol (snd e) = s) (considered None example_snapshot)) = k)
            (first_seen (map (\<lambda>e. symbol (snd e)) (considered None example_snapshot)))"
    using consensus_sorted_stable [of 60 "[]" example_snapshot None] by blast
  have eq: "out = example_consensus"
    using out by (simp add: example_consensus_run)
  have t1: "map total_count out = [2, 1, 1]"
    unfolding eq by (simp add: example_consensus_def)
  have t2: "map sc_symbol (filter (\<lambda>c. total_count c = 1) out) = [''ETHUSDT'', ''SOLUSDT'']"
    unfolding eq by (simp add: example_consensus_def)
  show ?thesis
  proof (intro exI conjI)
    show "calculate_consensus 60 [] example_snapshot None = Inr out" by (rule out)
    show "map total_count out = [2, 1, 1]" by (rule t1)
    show "map sc_symbol (filter (\<lambda>c. total_count c = 1) out) = [''ETHUSDT'', ''SOLUSDT'']"
      by (rule t2)
    show "first_seen (map (\<lambda>e. symbol (snd e)) (considered None example_snapshot)) =
       [''ETHUSDT'', ''BTCUSDT'', ''SOLUSDT'']" by (rule fs)
  qed
qed

subsection \<open>Leverage and PnL per side\<close>

text \<open>
  C8. For every record of the output, the average leverage of a side is the arithmetic
  mean of the leverage values of the positions of that symbol on that side (those that
  pass the symbol filter), and 0 when there is none; the PnL of a side is the sum of the
  \<open>pnl\<close> fields of those positions. Prices are not read. The long side is the positions
  with \<open>side = "LONG"\<close>, the short side all the others.
\<close>

theorem consensus_leverage_pnl:
  "\<exists>out. calculate_consensus T traders positions tr = Inr out \<and>
     (\<forall>c \<in> set out.
        avg_leverage_long c =
          mean_leverage (long_entries (considered tr positions) (sc_symbol c)) \<and>
        avg_leverage_short c =
          mean_leverage (short_entries (considered tr positions) (sc_symbol c)) \<and>
        total_long_pnl c =
          sum_list (map (\<lambda>e. pnl (snd e)) (long_entries (considered tr positions) (sc_symbol c))) \<and>
        total_short_pnl c =
          sum_list (map (\<lambda>e. pnl (snd e)) (short_entries (considered tr positions) (sc_symbol c))))"
proof -
  obtain out where out: "calculate_consensus T traders positions tr = Inr out"
    by (simp add: calculate_consensus_Inr)
  have "avg_leverage_long c =
          mean_leverage (long_entries (considered tr positions) (sc_symbol c)) \<and>
        avg_leverage_short c =
          mean_leverage (short_entries (considered tr positions) (sc_symbol c)) \<and>
        total_long_pnl c =
          sum_list (map (\<lambda>e. pnl (snd e)) (long_entries (considered tr positions) (sc_symbol c))) \<and>
        total_short_pnl c =
          sum_list (map (\<lambda>e. pnl (snd e)) (short_entries (considered tr positions) (sc_symbol c)))"
    if cin: "c \<in> set out" for c
  proof -
    obtain s where c: "c = summary T (considered tr positions) s"
      using output_records [OF out cin] by blast
    show ?thesis
      unfolding c summary_fields by simp
  qed
  then show ?thesis using out by blast
qed

theorem consensus_leverage_pnl_witness:
  "\<exists>out. calculate_consensus 60 [] example_snapshot None = Inr out \<and>
     map avg_leverage_long out = [3, 2, 0] \<and> map avg_leverage_short out = [5, 0, 1] \<and>
     map total_long_pnl out = [10, 5, 0] \<and> map total_short_pnl out = [-4, 0, 1] \<and>
     (\<forall>c \<in> set out.
        avg_leverage_long c =
          mean_leverage (long_entries (considered None example_snapshot) (sc_symbol c)) \<and>
        total_short_pnl c =
          sum_list (map (\<lambda>e. pnl (snd e))
            (short_entries (considered None example_snapshot) (sc_symbol c))))"
proof -
  obtain out where out: "calculate_consensus 60 [] example_snapshot None = Inr out"
    and all: "\<forall>c \<in> set out.
        avg_leverage_long c =
          mean_leverage (long_entries (considered None example_snapshot) (sc_symbol c)) \<and>
        avg_leverage_short c =
          mean_leverage (short_entries (considered None example_snapshot) (sc_symbol c)) \<and>
        total_long_pnl c =
          sum_list (map (\<lambda>e. pnl (snd e)) (long_entries (considered None example_snapshot) (sc_symbol c))) \<and>
        total_short_pnl c =
          sum_list (map (\<lambda>e. pnl (snd e)) (short_entries (considered None example_snapshot) (sc_symbol c)))"
    using consensus_leverage_pnl [of 60 "[]" example_snapshot None] by blast
  have eq: "out = example_consensus"
    using out by (simp add: example_consensus_run)
  have m: "map avg_leverage_long out = [3, 2, 0]" "map avg_leverage_short out = [5, 0, 1]"
     "map total_long_pnl out = [10, 5, 0]" "map total_short_pnl out = [-4, 0, 1]"
    unfolding eq by (simp_all add: example_consensus_def)
  have sub: "\<forall>c \<in> set out.
        avg_leverage_long c =
          mean_leverage (long_entries (considered None example_snapshot) (sc_symbol c)) \<and>
        total_short_pnl c =
          sum_list (map (\<lambda>e. pnl (snd e))
            (short_entries (considered None example_snapshot) (sc_symbol c)))"
    using all by blast
  show ?thesis
  proof (intro exI conjI)
    show "calculate_consensus 60 [] example_snapshot None = Inr out" by (rule out)
    show "map avg_leverage_long out = [3, 2, 0]" by (rule m(1))
    show "map avg_leverage_short out = [5, 0, 1]" by (rule m(2))
    show "map total_long_pnl out = [10, 5, 0]" by (rule m(3))
    show "map total_short_pnl out = [-4, 0, 1]" by (rule m(4))
    show "\<forall>c \<in> set out.
        avg_leverage_long c =
          mean_leverage (long_entries (considered None example_snapshot) (sc_symbol c)) \<and>
        total_short_pnl c =
          sum_list (map (\<lambda>e. pnl (snd e))
            (short_entries (considered None example_snapshot) (sc_symbol c)))" by (rule sub)
  qed
qed

subsection \<open>Sides\<close>

lemma symbol_has_record:
  assumes "calculate_consensus T traders positions tr = Inr out"
    and "e \<in> set (considered tr positions)"
  shows "\<exists>c \<in> set out. sc_symbol c = symbol (snd e)"
proof -
  let ?es = "considered tr positions"
  have "symbol (snd e) \<in> set (first_seen (map (\<lambda>e. symbol (snd e)) ?es))"
    using assms(2) by (simp add: set_first_seen)
  moreover have "out = sort_total_desc (map (summary T ?es)
      (first_seen (map (\<lambda>e. symbol (snd e)) ?es)))"
    using assms(1) by (simp add: calculate_consensus_Inr)
  ultimately have "summary T ?es (symbol (snd e)) \<in> set out"
    by (simp add: set_sort_total_desc)
  then show ?thesis
    using summary_fields(1) by blast
qed

text \<open>
  C10. Every position that passes the symbol filter is counted in the record of its
  symbol, whatever its \<open>side\<close> string: the record exists, its \<open>total_count\<close> is the number
  of such positions of the symbol, its \<open>long_count\<close> the number of those whose side is
  exactly \<open>"LONG"\<close>, and its \<open>short_count\<close> the number of all the others (any other
  string, not only \<open>"SHORT"\<close>).
\<close>

theorem other_sides_count_short:
  "\<exists>out. calculate_consensus T traders positions tr = Inr out \<and>
     (\<forall>e \<in> set (considered tr positions). \<exists>c \<in> set out. sc_symbol c = symbol (snd e)) \<and>
     (\<forall>c \<in> set out.
        short_count c =
          length (filter (\<lambda>e. symbol (snd e) = sc_symbol c \<and> side (snd e) \<noteq> ''LONG'')
            (considered tr positions)) \<and>
        long_count c =
          length (filter (\<lambda>e. symbol (snd e) = sc_symbol c \<and> side (snd e) = ''LONG'')
            (considered tr positions)) \<and>
        total_count c =
          length (filter (\<lambda>e. symbol (snd e) = sc_symbol c) (considered tr positions)))"
proof -
  obtain out where out: "calculate_consensus T traders positions tr = Inr out"
    by (simp add: calculate_consensus_Inr)
  have counts: "short_count c =
          length (filter (\<lambda>e. symbol (snd e) = sc_symbol c \<and> side (snd e) \<noteq> ''LONG'')
            (considered tr positions)) \<and>
        long_count c =
          length (filter (\<lambda>e. symbol (snd e) = sc_symbol c \<and> side (snd e) = ''LONG'')
            (considered tr positions)) \<and>
        total_count c =
          length (filter (\<lambda>e. symbol (snd e) = sc_symbol c) (considered tr positions))"
    if cin: "c \<in> set out" for c
  proof -
    obtain s where c: "c = summary T (considered tr positions) s"
      using output_records [OF out cin] by blast
    show ?thesis
      unfolding c total_count_summary
      unfolding summary_fields long_entries_def short_entries_def by simp
  qed
  show ?thesis
    using out counts symbol_has_record [OF out] by blast
qed

theorem other_sides_count_short_witness:
  "(''u2'', position_fixture ''BTCUSDT'' ''SHRT'' (-4) 5) \<in> set (considered None example_snapshot) \<and>
   (\<exists>out. calculate_consensus 60 [] example_snapshot None = Inr out \<and>
      (\<exists>c \<in> set out. sc_symbol c = ''BTCUSDT'' \<and> short_count c = 1 \<and> long_count c = 1 \<and>
         total_count c = 2))"
proof -
  have mem: "(''u2'', position_fixture ''BTCUSDT'' ''SHRT'' (-4) 5)
      \<in> set (considered None example_snapshot)"
    by (simp add: considered_def pairs_def filtered_out_def example_snapshot_def)
  obtain out where out: "calculate_consensus 60 [] example_snapshot None = Inr out"
    and ex: "\<forall>e \<in> set (considered None example_snapshot).
        \<exists>c \<in> set out. sc_symbol c = symbol (snd e)"
    using other_sides_count_short [of 60 "[]" example_snapshot None] by blast
  have eq: "out = example_consensus"
    using out by (simp add: example_consensus_run)
  obtain c where c: "c \<in> set out"
      "sc_symbol c = symbol (snd (''u2'', position_fixture ''BTCUSDT'' ''SHRT'' (-4) 5))"
    using ex mem by blast
  have sy: "sc_symbol c = ''BTCUSDT''"
    using c(2) by (simp add: position_fixture_def)
  have "short_count c = 1 \<and> long_count c = 1 \<and> total_count c = 2"
    using c(1) sy unfolding eq by (auto simp add: example_consensus_def)
  then have "\<exists>c \<in> set out. sc_symbol c = ''BTCUSDT'' \<and> short_count c = 1 \<and> long_count c = 1 \<and>
         total_count c = 2"
    using c(1) sy by (intro bexI [of _ c]) simp_all
  then show ?thesis
    using mem out by (intro conjI exI [of _ out]) simp_all
qed

subsection \<open>The allowlist\<close>

lemma pairs_restrict:
  "pairs (restrict_positions ts positions) =
     filter (\<lambda>e. symbol (snd e) \<in> set ts) (pairs positions)"
  by (induction positions) (simp_all add: pairs_def restrict_positions_def filter_map comp_def)

lemma considered_None: "considered None positions = pairs positions"
  by (simp add: considered_def filtered_out_def)

lemma considered_Nil: "considered (Some []) positions = pairs positions"
  by (simp add: considered_def filtered_out_def)

lemma considered_Some:
  "ts \<noteq> [] \<Longrightarrow>
     considered (Some ts) positions = filter (\<lambda>e. symbol (snd e) \<in> set ts) (pairs positions)"
  by (simp add: considered_def filtered_out_def)

text \<open>
  C5 as stated fails for an allowlist that is given but empty: the source tests the list
  for truth, so \<open>[]\<close> filters nothing, and a position whose symbol is not a member of it
  is aggregated all the same.
\<close>

theorem empty_allowlist_counterexample:
  "calculate_consensus 60 [] [(''u1'', [position_fixture ''BTCUSDT'' ''LONG'' 10 3])] (Some []) =
     Inr [\<lparr>sc_symbol = ''BTCUSDT'', long_count = 1, short_count = 0, total_count = 1,
           long_percent = 100, short_percent = 0, avg_leverage_long = 3,
           avg_leverage_short = 0, total_long_pnl = 10, total_short_pnl = 0,
           signal = ''STRONG_BUY''\<rparr>]"
  by (simp add: calculate_consensus_def position_fixture_def
      group_position_def filtered_out_def append_long_def append_short_def empty_data_def
      consensus_of_def Let_def truediv_def then_e_def avg_leverage_def get_signal_def
      sort_total_desc_def)

text \<open>
  C5, amended. With a non-empty allowlist the output is the one computed, without any
  filter, from the snapshot in which every position whose symbol is not a member has been
  deleted, and no record has a symbol outside the allowlist. With an empty allowlist the
  output is that of no allowlist. With no allowlist every symbol of the snapshot has a
  record, which counts all the positions of the symbol.
\<close>

theorem allowlist_nonempty_or_absent:
  "(ts \<noteq> [] \<longrightarrow>
      (\<exists>out. calculate_consensus T traders positions (Some ts) = Inr out \<and>
         calculate_consensus T traders (restrict_positions ts positions) None = Inr out \<and>
         (\<forall>c \<in> set out. sc_symbol c \<in> set ts))) \<and>
   calculate_consensus T traders positions (Some []) =
     calculate_consensus T traders positions None \<and>
   (\<exists>out. calculate_consensus T traders positions None = Inr out \<and>
      set (map sc_symbol out) = set (map (\<lambda>e. symbol (snd e)) (pairs positions)) \<and>
      (\<forall>c \<in> set out.
         total_count c = length (filter (\<lambda>e. symbol (snd e) = sc_symbol c) (pairs positions))))"
proof (intro conjI impI)
  assume ne: "ts \<noteq> []"
  obtain out where out: "calculate_consensus T traders positions (Some ts) = Inr out"
    by (simp add: calculate_consensus_Inr)
  have same: "considered (Some ts) positions = considered None (restrict_positions ts positions)"
    by (simp add: considered_Some [OF ne] considered_None pairs_restrict)
  have r: "calculate_consensus T traders (restrict_positions ts positions) None = Inr out"
    using out unfolding calculate_consensus_Inr same .
  have "sc_symbol c \<in> set ts" if cin: "c \<in> set out" for c
  proof -
    obtain s where s: "s \<in> set (map (\<lambda>e. symbol (snd e)) (considered (Some ts) positions))"
      and c: "c = summary T (considered (Some ts) positions) s"
      using output_records [OF out cin] by blast
    have "s \<in> set ts" using s unfolding considered_Some [OF ne] by auto
    then show ?thesis unfolding c summary_fields .
  qed
  then show "\<exists>out. calculate_consensus T traders positions (Some ts) = Inr out \<and>
         calculate_consensus T traders (restrict_positions ts positions) None = Inr out \<and>
         (\<forall>c \<in> set out. sc_symbol c \<in> set ts)"
    using out r by blast
next
  show "calculate_consensus T traders positions (Some []) =
     calculate_consensus T traders positions None"
    by (simp add: calculate_consensus_Inr considered_Nil considered_None)
next
  obtain out where out: "calculate_consensus T traders positions None = Inr out"
    by (simp add: calculate_consensus_Inr)
  have syms: "set (map sc_symbol out) = set (map (\<lambda>e. symbol (snd e)) (pairs positions))"
  proof -
    have "out = sort_total_desc (map (summary T (pairs positions))
            (first_seen (map (\<lambda>e. symbol (snd e)) (pairs positions))))"
      using out by (simp add: calculate_consensus_Inr considered_None)
    then have "set (map sc_symbol out) =
        (\<lambda>s. sc_symbol (summary T (pairs positions) s)) `
          set (first_seen (map (\<lambda>e. symbol (snd e)) (pairs positions)))"
      by (simp add: set_sort_total_desc image_image)
    then show ?thesis
      by (simp add: summary_fields(1) set_first_seen)
  qed
  have "total_count c = length (filter (\<lambda>e. symbol (snd e) = sc_symbol c) (pairs positions))"
    if cin: "c \<in> set out" for c
  proof -
    obtain s where c: "c = summary T (considered None positions) s"
      using output_records [OF out cin] by blast
    show ?thesis
      unfolding c total_count_summary summary_fields considered_None ..
  qed
  then show "\<exists>out. calculate_consensus T traders positions None = Inr out \<and>
      set (map sc_symbol out) = set (map (\<lambda>e. symbol (snd e)) (pairs positions)) \<and>
      (\<forall>c \<in> set out.
         total_count c = length (filter (\<lambda>e. symbol (snd e) = sc_symbol c) (pairs positions)))"
    using out syms by blast
qed

theorem allowlist_nonempty_or_absent_witness:
  "[''BTCUSDT''] \<noteq> [] \<and>
   (\<exists>out. calculate_consensus 60 [] example_snapshot (Some [''BTCUSDT'']) = Inr out \<and>
      calculate_consensus 60 [] (restrict_positions [''BTCUSDT''] example_snapshot) None = Inr out \<and>
      map sc_symbol out = [''BTCUSDT''] \<and> map total_count out = [2])"
proof -
  have h: "[''BTCUSDT''] \<noteq> []" by simp
  have imp: "[''BTCUSDT''] \<noteq> [] \<longrightarrow>
      (\<exists>out. calculate_consensus 60 [] example_snapshot (Some [''BTCUSDT'']) = Inr out \<and>
         calculate_consensus 60 [] (restrict_positions [''BTCUSDT''] example_snapshot) None = Inr out \<and>
         (\<forall>c \<in> set out. sc_symbol c \<in> set [''BTCUSDT'']))"
    using allowlist_nonempty_or_absent
      [where ts = "[''BTCUSDT'']" and T = 60 and traders = "[]" and positions = example_snapshot]
    by (rule conjunct1)
  obtain out where out: "calculate_consensus 60 [] example_snapshot (Some [''BTCUSDT'']) = Inr out"
    and r: "calculate_consensus 60 [] (restrict_positions [''BTCUSDT''] example_snapshot) None = Inr out"
    using mp [OF imp h] by blast
  have run: "calculate_consensus 60 [] example_snapshot (Some [''BTCUSDT'']) =
     Inr [\<lparr>sc_symbol = ''BTCUSDT'', long_count = 1, short_count = 1, total_count = 2,
       long_percent = 50, short_percent = 50, avg_leverage_long = 3, avg_leverage_short = 5,
       total_long_pnl = 10, total_short_pnl = -4, signal = ''NEUTRAL''\<rparr>]"
    by (simp add: calculate_consensus_def example_snapshot_def position_fixture_def
      group_position_def filtered_out_def append_long_def append_short_def empty_data_def
      consensus_of_def Let_def truediv_def then_e_def avg_leverage_def get_signal_def
      sort_total_desc_def)
  have m: "map sc_symbol out = [''BTCUSDT'']" "map total_count out = [2]"
    using out unfolding run by auto
  show ?thesis
  proof (intro exI conjI)
    show "[''BTCUSDT''] \<noteq> []" by (rule h)
    show "calculate_consensus 60 [] example_snapshot (Some [''BTCUSDT'']) = Inr out" by (rule out)
    show "calculate_consensus 60 [] (restrict_positions [''BTCUSDT''] example_snapshot) None = Inr out"
      by (rule r)
    show "map sc_symbol out = [''BTCUSDT'']" by (rule m(1))
    show "map total_count out = [2]" by (rule m(2))
  qed
qed

subsection \<open>Conversion of a scenario\<close>

lemma convert_loop_fst:
  "fst (convert_loop sp trs acc) = fst acc @ map convert_trader trs"
  by (induction trs arbitrary: acc) (simp_all add: Let_def)

lemma convert_loop_snd:
  "snd (convert_loop sp trs acc) =
     fold (\<lambda>u d. if map convert_position (dict_get sp u []) \<noteq> []
                  then dict_set u (map convert_position (dict_get sp u [])) d else d)
       (map m_encrypted_uid trs) (snd acc)"
  by (induction trs arbitrary: acc) (simp_all add: Let_def)

lemma dict_set_absent:
  "k \<notin> set (map fst d) \<Longrightarrow> dict_set k v d = d @ [(k, v)]"
  by (induction d) auto

lemma dict_set_same:
  "k \<in> set (map fst d) \<Longrightarrow> \<forall>e \<in> set d. snd e = F (fst e) \<Longrightarrow> dict_set k (F k) d = d"
  by (induction d) (auto simp add: rev_image_eqI)

lemma fold_dict_set:
  assumes "\<forall>e \<in> set d. snd e = F (fst e)"
  shows "fold (\<lambda>u d. if F u \<noteq> [] then dict_set u (F u) d else d) us d =
     d @ map (\<lambda>u. (u, F u))
           (filter (\<lambda>u. F u \<noteq> [] \<and> u \<notin> set (map fst d)) (first_seen us))"
  using assms
proof (induction us arbitrary: d)
  case Nil
  show ?case by simp
next
  case (Cons u us)
  let ?fs = "first_seen us"
  show ?case
  proof (cases "F u \<noteq> [] \<and> u \<notin> set (map fst d)")
    case True
    then have set_eq: "dict_set u (F u) d = d @ [(u, F u)]"
      by (simp add: dict_set_absent)
    have inv: "\<forall>e \<in> set (d @ [(u, F u)]). snd e = F (fst e)"
      using Cons.prems by auto
    have flt: "filter (\<lambda>v. F v \<noteq> [] \<and> v \<notin> set (map fst (d @ [(u, F u)]))) ?fs =
               filter (\<lambda>v. F v \<noteq> [] \<and> v \<notin> set (map fst d)) (filter (\<lambda>y. y \<noteq> u) ?fs)"
      by (auto intro: filter_cong)
    have "fold (\<lambda>u d. if F u \<noteq> [] then dict_set u (F u) d else d) (u # us) d =
          fold (\<lambda>u d. if F u \<noteq> [] then dict_set u (F u) d else d) us (d @ [(u, F u)])"
      using True by (simp add: set_eq)
    also have "\<dots> = (d @ [(u, F u)]) @ map (\<lambda>u. (u, F u))
           (filter (\<lambda>v. F v \<noteq> [] \<and> v \<notin> set (map fst (d @ [(u, F u)]))) ?fs)"
      by (rule Cons.IH [OF inv])
    also have "\<dots> = d @ map (\<lambda>u. (u, F u))
           (filter (\<lambda>u. F u \<noteq> [] \<and> u \<notin> set (map fst d)) (first_seen (u # us)))"
      unfolding flt using True by simp
    finally show ?thesis .
  next
    case False
    have step: "(if F u \<noteq> [] then dict_set u (F u) d else d) = d"
      using False dict_set_same [of u d F] Cons.prems by auto
    have flt: "filter (\<lambda>v. F v \<noteq> [] \<and> v \<notin> set (map fst d)) (filter (\<lambda>y. y \<noteq> u) ?fs) =
               filter (\<lambda>v. F v \<noteq> [] \<and> v \<notin> set (map fst d)) ?fs"
      using False by (auto intro: filter_cong)
    have notin: "\<not> (F u \<noteq> [] \<and> u \<notin> set (map fst d))" by (rule False)
    have "fold (\<lambda>u d. if F u \<noteq> [] then dict_set u (F u) d else d) (u # us) d =
          fold (\<lambda>u d. if F u \<noteq> [] then dict_set u (F u) d else d) us d"
      by (simp add: step)
    also have "\<dots> = d @ map (\<lambda>u. (u, F u))
           (filter (\<lambda>v. F v \<noteq> [] \<and> v \<notin> set (map fst d)) ?fs)"
      by (rule Cons.IH [OF Cons.prems])
    also have "\<dots> = d @ map (\<lambda>u. (u, F u))
           (filter (\<lambda>v. F v \<noteq> [] \<and> v \<notin> set (map fst d)) (filter (\<lambda>y. y \<noteq> u) ?fs))"
      by (simp only: flt)
    also have "\<dots> = d @ map (\<lambda>u. (u, F u))
           (filter (\<lambda>u. F u \<noteq> [] \<and> u \<notin> set (map fst d)) (first_seen (u # us)))"
      using notin by (simp only: first_seen.simps filter.simps if_False)
    finally show ?thesis .
  qed
qed

lemma convert_loop_held:
  "snd (convert_loop (s_positions sc) (s_traders sc) ([], [])) = held_positions sc"
proof -
  let ?F = "\<lambda>u. map convert_position (dict_get (s_positions sc) u [])"
  have "fold (\<lambda>u d. if ?F u \<noteq> [] then dict_set u (?F u) d else d)
          (map m_encrypted_uid (s_traders sc)) [] =
        map (\<lambda>u. (u, ?F u))
           (filter (\<lambda>u. ?F u \<noteq> [])
              (first_seen (map m_encrypted_uid (s_traders sc))))"
    using fold_dict_set [where F = ?F and d = "[]"] by simp
  then show ?thesis
    by (simp add: convert_loop_snd held_positions_def)
qed

subsection \<open>One trade per actionable record\<close>

lemma symbol_positions_eq: "symbol_positions positions s = positions_of positions s"
  by (induction positions) (simp_all add: symbol_positions_def positions_of_def)

lemma map_snd_pairs: "map snd (pairs positions) = concat (map snd positions)"
  by (induction positions) (simp_all add: pairs_def comp_def)

lemma positions_of_nonempty:
  "s \<in> set (map (\<lambda>e. symbol (snd e)) (pairs positions)) \<Longrightarrow> positions_of positions s \<noteq> []"
proof -
  assume "s \<in> set (map (\<lambda>e. symbol (snd e)) (pairs positions))"
  then have "s \<in> symbol ` set (map snd (pairs positions))" by auto
  then show ?thesis
    unfolding map_snd_pairs positions_of_def by (auto simp add: filter_empty_conv)
qed

lemma strong_filter: "get_strong_signals cl = filter actionable cl"
  by (simp add: get_strong_signals_def actionable_def [abs_def])

lemma actionable_cases: "actionable c \<longleftrightarrow> is_buy c \<or> is_sell c"
  by (auto simp add: actionable_def is_buy_def is_sell_def)

lemma trade_of_cases:
  "trade_of date positions c =
     (let sps = positions_of positions (sc_symbol c)
      in if sps = [] then Inr None
         else
           then_e (truediv (sum_list (map entry_price sps)) (real (length sps))) (\<lambda>avg_entry.
           then_e (truediv (sum_list (map mark_price sps)) (real (length sps))) (\<lambda>avg_exit.
             if is_buy c then
               then_e (truediv (avg_exit - avg_entry) avg_entry) (\<lambda>q.
                 Inr (Some \<lparr>t_symbol = sc_symbol c, t_side = ''LONG'',
                   t_entry_price = avg_entry, t_exit_price = avg_exit,
                   t_entry_time = date, t_exit_time = date,
                   t_pnl = avg_exit - avg_entry, t_pnl_percent = q * 100,
                   t_signal = signal c\<rparr>))
             else if is_sell c then
               then_e (truediv (avg_entry - avg_exit) avg_entry) (\<lambda>q.
                 Inr (Some \<lparr>t_symbol = sc_symbol c, t_side = ''SHORT'',
                   t_entry_price = avg_entry, t_exit_price = avg_exit,
                   t_entry_time = date, t_exit_time = date,
                   t_pnl = avg_entry - avg_exit, t_pnl_percent = q * 100,
                   t_signal = signal c\<rparr>))
             else Inr None)))"
  unfolding trade_of_def symbol_positions_eq is_buy_def is_sell_def ..

lemma expected_trade_cases:
  "expected_trade date positions c =
     (let avg_entry = mean (map entry_price (positions_of positions (sc_symbol c)));
          avg_exit = mean (map mark_price (positions_of positions (sc_symbol c)))
      in if is_buy c
         then \<lparr>t_symbol = sc_symbol c, t_side = ''LONG'', t_entry_price = avg_entry,
                t_exit_price = avg_exit, t_entry_time = date, t_exit_time = date,
                t_pnl = avg_exit - avg_entry,
                t_pnl_percent = (avg_exit - avg_entry) / avg_entry * 100,
                t_signal = signal c\<rparr>
         else \<lparr>t_symbol = sc_symbol c, t_side = ''SHORT'', t_entry_price = avg_entry,
                t_exit_price = avg_exit, t_entry_time = date, t_exit_time = date,
                t_pnl = avg_entry - avg_exit,
                t_pnl_percent = (avg_entry - avg_exit) / avg_entry * 100,
                t_signal = signal c\<rparr>)"
  unfolding expected_trade_def is_buy_def ..

lemma trade_of_Inr:
  assumes "positions_of positions (sc_symbol c) \<noteq> []"
    and "actionable c \<longrightarrow> mean (map entry_price (positions_of positions (sc_symbol c))) \<noteq> 0"
  shows "trade_of date positions c =
     Inr (if actionable c then Some (expected_trade date positions c) else None)"
proof -
  have len: "real (length (positions_of positions (sc_symbol c))) \<noteq> 0"
    using assms(1) by simp
  show ?thesis
    using assms len
    by (simp add: trade_of_cases expected_trade_cases actionable_cases Let_def truediv_def
        then_e_def mean_def)
qed

lemma trade_of_Inl:
  assumes "positions_of positions (sc_symbol c) \<noteq> []"
    and "actionable c"
    and "mean (map entry_price (positions_of positions (sc_symbol c))) = 0"
  shows "trade_of date positions c = Inl ZeroDivisionError"
proof -
  have len: "real (length (positions_of positions (sc_symbol c))) \<noteq> 0"
    using assms(1) by simp
  show ?thesis
    using assms len
    by (auto simp add: trade_of_cases actionable_cases Let_def truediv_def then_e_def mean_def)
qed

lemma trades_loop_Inr:
  assumes "\<forall>c \<in> set cl. positions_of positions (sc_symbol c) \<noteq> []"
    and "\<forall>c \<in> set cl. actionable c \<longrightarrow>
           mean (map entry_price (positions_of positions (sc_symbol c))) \<noteq> 0"
  shows "trades_loop date positions cl acc =
     Inr (acc @ map (expected_trade date positions) (filter actionable cl))"
  using assms
proof (induction cl arbitrary: acc)
  case Nil
  show ?case by simp
next
  case (Cons c cl)
  have ne: "positions_of positions (sc_symbol c) \<noteq> []"
    using Cons.prems(1) by simp
  have rest1: "\<forall>c \<in> set cl. positions_of positions (sc_symbol c) \<noteq> []"
    using Cons.prems(1) by simp
  have rest2: "\<forall>c \<in> set cl. actionable c \<longrightarrow>
           mean (map entry_price (positions_of positions (sc_symbol c))) \<noteq> 0"
    using Cons.prems(2) by simp
  have hd: "actionable c \<longrightarrow>
           mean (map entry_price (positions_of positions (sc_symbol c))) \<noteq> 0"
    using Cons.prems(2) by simp
  show ?case
    by (simp add: trade_of_Inr [OF ne hd] then_e_Inr Cons.IH [OF rest1 rest2])
qed

lemma trades_loop_Inl:
  assumes "\<forall>c \<in> set cl. positions_of positions (sc_symbol c) \<noteq> []"
    and "\<exists>c \<in> set cl. actionable c \<and>
           mean (map entry_price (positions_of positions (sc_symbol c))) = 0"
  shows "trades_loop date positions cl acc = Inl ZeroDivisionError"
  using assms
proof (induction cl arbitrary: acc)
  case Nil
  then show ?case by simp
next
  case (Cons c cl)
  have ne: "positions_of positions (sc_symbol c) \<noteq> []"
    using Cons.prems(1) by simp
  have rest1: "\<forall>c \<in> set cl. positions_of positions (sc_symbol c) \<noteq> []"
    using Cons.prems(1) by simp
  show ?case
  proof (cases "actionable c \<and>
      mean (map entry_price (positions_of positions (sc_symbol c))) = 0")
    case True
    then have "trade_of date positions c = Inl ZeroDivisionError"
      using trade_of_Inl [OF ne] by blast
    then show ?thesis
      by (simp add: then_e_Inl)
  next
    case False
    then have hd: "actionable c \<longrightarrow>
           mean (map entry_price (positions_of positions (sc_symbol c))) \<noteq> 0"
      by blast
    have rest2: "\<exists>c \<in> set cl. actionable c \<and>
           mean (map entry_price (positions_of positions (sc_symbol c))) = 0"
      using Cons.prems(2) False by auto
    show ?thesis
      by (simp add: trade_of_Inr [OF ne hd] then_e_Inr Cons.IH [OF rest1 rest2])
  qed
qed

lemma distinct_symbols_sorted:
  "distinct (map sc_symbol (sort_total_desc cs)) = distinct (map sc_symbol cs)"
  by (simp add: distinct_map sort_total_desc_def)

lemma symbols_of_summaries: "map sc_symbol (map (summary T es) ks) = ks"
  by (induction ks) (simp_all add: summary_fields(1))

lemma get_signal_values:
  "get_signal T lp sp \<in> set [''STRONG_BUY'', ''BUY'', ''STRONG_SELL'', ''SELL''] \<or>
   get_signal T lp sp = ''NEUTRAL''"
  by (simp add: get_signal_def)

lemma signal_summary:
  "actionable (summary T es s) \<or> signal (summary T es s) = ''NEUTRAL''"
  unfolding actionable_def summary_def Let_def using get_signal_values by simp

lemma count_trades:
  "length (filter (\<lambda>t. t_symbol t = k) (map (expected_trade date positions) (filter actionable xs))) =
     length (filter (\<lambda>x. actionable x \<and> sc_symbol x = k) xs)"
proof -
  have sym: "t_symbol (expected_trade date positions x) = sc_symbol x" for x
    by (simp add: expected_trade_cases Let_def)
  show ?thesis
    by (induction xs) (simp_all add: sym)
qed

lemma count_absent:
  "k \<notin> set (map sc_symbol xs) \<Longrightarrow> length (filter (\<lambda>x. actionable x \<and> sc_symbol x = k) xs) = 0"
  by (induction xs) auto

lemma count_per_symbol:
  assumes "distinct (map sc_symbol cl)" and "c \<in> set cl"
  shows "length (filter (\<lambda>t. t_symbol t = sc_symbol c)
           (map (expected_trade date positions) (filter actionable cl))) =
         (if actionable c then 1 else 0)"
proof -
  have "length (filter (\<lambda>x. actionable x \<and> sc_symbol x = sc_symbol c) cl) =
         (if actionable c then 1 else 0)"
    using assms
  proof (induction cl)
    case Nil
    then show ?case by simp
  next
    case (Cons x cl)
    have xnot: "sc_symbol x \<notin> set (map sc_symbol cl)" and dist: "distinct (map sc_symbol cl)"
      using Cons.prems(1) by simp_all
    show ?case
    proof (cases "c = x")
      case True
      show ?thesis
        using count_absent [OF xnot] True by simp
    next
      case False
      then have cin: "c \<in> set cl" using Cons.prems(2) by simp
      then have ne: "sc_symbol x \<noteq> sc_symbol c" using xnot by auto
      show ?thesis
        using Cons.IH [OF dist cin] ne by simp
    qed
  qed
  then show ?thesis
    by (simp only: count_trades)
qed

lemma run_scenario_loop:
  "run_scenario T sc =
     trades_loop (s_date sc) (held_positions sc)
       (sort_total_desc (map (summary T (pairs (held_positions sc)))
          (first_seen (map (\<lambda>e. symbol (snd e)) (pairs (held_positions sc)))))) []"
  by (simp add: run_scenario_def Let_def convert_loop_held calculate_consensus_Inr
      considered_None then_e_Inr)

lemma strong_member: "c \<in> set (get_strong_signals cl) \<longleftrightarrow> c \<in> set cl \<and> actionable c"
  by (simp add: strong_filter)

text \<open>
  C4 as stated fails when the mean entry price of an actionable symbol is 0: the
  division for \<open>pnl_percent\<close> raises, and the scenario yields no trade at all. Here the
  only symbol has the signal STRONG_BUY and one position entered at price 0.
\<close>

theorem zero_entry_counterexample:
  "calculate_consensus 60 (map convert_trader (s_traders zero_entry_scenario))
     (held_positions zero_entry_scenario) None =
     Inr [\<lparr>sc_symbol = ''BTCUSDT'', long_count = 1, short_count = 0, total_count = 1,
           long_percent = 100, short_percent = 0, avg_leverage_long = 1,
           avg_leverage_short = 0, total_long_pnl = 0, total_short_pnl = 0,
           signal = ''STRONG_BUY''\<rparr>] \<and>
   run_scenario 60 zero_entry_scenario = Inl ZeroDivisionError"
  by (simp add: run_scenario_def zero_entry_scenario_def held_positions_def dict_get_def
      convert_position_def convert_trader_def
      calculate_consensus_def group_position_def filtered_out_def append_long_def
      append_short_def empty_data_def consensus_of_def Let_def truediv_def then_e_def
      avg_leverage_def get_signal_def sort_total_desc_def trade_of_def symbol_positions_def)

text \<open>
  C4, amended. The consensus of a scenario is computed from the positions of its listed
  traders, and has one record per symbol. Provided the mean entry price of every actionable
  symbol is not 0, the run returns exactly one trade for every record with an actionable
  signal and none for a NEUTRAL one, in the order of the consensus list; the entry and exit
  prices of the trade are the arithmetic means of the entry and exit prices over all the
  positions of the symbol, whatever their side; for a BUY or STRONG_BUY signal the side is
  LONG and \<open>pnl = avg_exit - avg_entry\<close>, for a SELL or STRONG_SELL signal the side is
  SHORT and \<open>pnl = avg_entry - avg_exit\<close>, and \<open>pnl_percent = pnl / avg_entry * 100\<close> in
  both cases. If the mean entry price of some actionable symbol is 0, the run raises
  \<open>ZeroDivisionError\<close>.
\<close>

theorem run_scenario_trades:
  "\<exists>cl. calculate_consensus T (map convert_trader (s_traders sc)) (held_positions sc) None = Inr cl \<and>
     distinct (map sc_symbol cl) \<and>
     (\<forall>c \<in> set cl. c \<in> set (get_strong_signals cl) \<or> signal c = ''NEUTRAL'') \<and>
     ((\<forall>c \<in> set (get_strong_signals cl).
          mean (map entry_price (positions_of (held_positions sc) (sc_symbol c))) \<noteq> 0) \<longrightarrow>
        run_scenario T sc =
          Inr (map (expected_trade (s_date sc) (held_positions sc)) (get_strong_signals cl)) \<and>
        (\<forall>c \<in> set cl.
           length (filter (\<lambda>t. t_symbol t = sc_symbol c)
             (map (expected_trade (s_date sc) (held_positions sc)) (get_strong_signals cl))) =
           (if c \<in> set (get_strong_signals cl) then 1 else 0))) \<and>
     ((\<exists>c \<in> set (get_strong_signals cl).
          mean (map entry_price (positions_of (held_positions sc) (sc_symbol c))) = 0) \<longrightarrow>
        run_scenario T sc = Inl ZeroDivisionError)"
proof -
  let ?hp = "held_positions sc"
  let ?es = "pairs ?hp"
  let ?ks = "first_seen (map (\<lambda>e. symbol (snd e)) ?es)"
  let ?cl = "sort_total_desc (map (summary T ?es) ?ks)"
  have cons: "calculate_consensus T (map convert_trader (s_traders sc)) ?hp None = Inr ?cl"
    by (simp add: calculate_consensus_Inr considered_None)
  have dist: "distinct (map sc_symbol ?cl)"
    by (simp only: distinct_symbols_sorted symbols_of_summaries distinct_first_seen)
  have mem: "\<exists>s \<in> set (map (\<lambda>e. symbol (snd e)) ?es). c = summary T ?es s" if "c \<in> set ?cl" for c
    using that by (auto simp add: set_sort_total_desc set_first_seen)
  have sig: "\<forall>c \<in> set ?cl. c \<in> set (get_strong_signals ?cl) \<or> signal c = ''NEUTRAL''"
  proof
    fix c assume cin: "c \<in> set ?cl"
    then obtain s where "c = summary T ?es s" using mem by blast
    then have "actionable c \<or> signal c = ''NEUTRAL''" using signal_summary by simp
    then show "c \<in> set (get_strong_signals ?cl) \<or> signal c = ''NEUTRAL''"
      using cin unfolding strong_member by blast
  qed
  have ne: "\<forall>c \<in> set ?cl. positions_of ?hp (sc_symbol c) \<noteq> []"
  proof
    fix c assume "c \<in> set ?cl"
    then obtain s where s: "s \<in> set (map (\<lambda>e. symbol (snd e)) ?es)" and c: "c = summary T ?es s"
      using mem by blast
    show "positions_of ?hp (sc_symbol c) \<noteq> []"
      unfolding c summary_fields by (rule positions_of_nonempty [OF s])
  qed
  have ok: "run_scenario T sc =
          Inr (map (expected_trade (s_date sc) ?hp) (get_strong_signals ?cl)) \<and>
        (\<forall>c \<in> set ?cl.
           length (filter (\<lambda>t. t_symbol t = sc_symbol c)
             (map (expected_trade (s_date sc) ?hp) (get_strong_signals ?cl))) =
           (if c \<in> set (get_strong_signals ?cl) then 1 else 0))"
    if nz: "\<forall>c \<in> set (get_strong_signals ?cl).
          mean (map entry_price (positions_of ?hp (sc_symbol c))) \<noteq> 0"
  proof
    have nz': "\<forall>c \<in> set ?cl. actionable c \<longrightarrow>
          mean (map entry_price (positions_of ?hp (sc_symbol c))) \<noteq> 0"
      using nz by (auto simp add: strong_member)
    show "run_scenario T sc =
          Inr (map (expected_trade (s_date sc) ?hp) (get_strong_signals ?cl))"
      unfolding run_scenario_loop strong_filter
      using trades_loop_Inr [OF ne nz', of "s_date sc" "[]"] by simp
    show "\<forall>c \<in> set ?cl.
           length (filter (\<lambda>t. t_symbol t = sc_symbol c)
             (map (expected_trade (s_date sc) ?hp) (get_strong_signals ?cl))) =
           (if c \<in> set (get_strong_signals ?cl) then 1 else 0)"
    proof
      fix c assume cin: "c \<in> set ?cl"
      have iff: "(c \<in> set (get_strong_signals ?cl)) = actionable c"
        using cin unfolding strong_member by blast
      show "length (filter (\<lambda>t. t_symbol t = sc_symbol c)
             (map (expected_trade (s_date sc) ?hp) (get_strong_signals ?cl))) =
           (if c \<in> set (get_strong_signals ?cl) then 1 else 0)"
        unfolding iff unfolding strong_filter
        by (rule count_per_symbol [OF dist cin])
    qed
  qed
  have bad: "run_scenario T sc = Inl ZeroDivisionError"
    if z: "\<exists>c \<in> set (get_strong_signals ?cl).
          mean (map entry_price (positions_of ?hp (sc_symbol c))) = 0"
  proof -
    have z': "\<exists>c \<in> set ?cl. actionable c \<and>
          mean (map entry_price (positions_of ?hp (sc_symbol c))) = 0"
      using z by (auto simp add: strong_member)
    show ?thesis
      unfolding run_scenario_loop by (rule trades_loop_Inl [OF ne z'])
  qed
  show ?thesis
    using cons dist sig ok bad by blast
qed

lemma btc_held:
  "held_positions btc_bull_run =
     [(''t1'', [convert_position (mock_position ''BTCUSDT'' ''LONG'' 40000 44000 10)]),
      (''t2'', [convert_position (mock_position ''BTCUSDT'' ''LONG'' 40200 44000 9.45)]),
      (''t3'', [convert_position (mock_position ''BTCUSDT'' ''LONG'' 39800 44000 10.55)]),
      (''t4'', [convert_position (mock_position ''BTCUSDT'' ''SHORT'' 41000 44000 (-7.3))]),
      (''t5'', [convert_position (mock_position ''BTCUSDT'' ''LONG'' 40500 44000 8.6)])]"
  by (simp add: held_positions_def btc_bull_run_def mock_trader_def dict_get_def)

lemma btc_consensus:
  "calculate_consensus 60 (map convert_trader (s_traders btc_bull_run))
     (held_positions btc_bull_run) None =
     Inr [\<lparr>sc_symbol = ''BTCUSDT'', long_count = 4, short_count = 1, total_count = 5,
           long_percent = 80, short_percent = 20, avg_leverage_long = 1,
           avg_leverage_short = 1, total_long_pnl = 38.6, total_short_pnl = -7.3,
           signal = ''STRONG_BUY''\<rparr>]"
  unfolding btc_held
  by (simp add: convert_position_def mock_position_def
      calculate_consensus_def group_position_def filtered_out_def append_long_def
      append_short_def empty_data_def consensus_of_def Let_def truediv_def then_e_def
      avg_leverage_def get_signal_def sort_total_desc_def)

lemma btc_mean_entry:
  "mean (map entry_price (positions_of (held_positions btc_bull_run) ''BTCUSDT'')) = 40300"
  unfolding btc_held
  by (simp add: positions_of_def convert_position_def mock_position_def mean_def)

lemma btc_mean_exit:
  "mean (map mark_price (positions_of (held_positions btc_bull_run) ''BTCUSDT'')) = 44000"
  unfolding btc_held
  by (simp add: positions_of_def convert_position_def mock_position_def mean_def)

lemma btc_date: "s_date btc_bull_run = 0"
  by (simp add: btc_bull_run_def)

theorem run_scenario_trades_witness:
  "mean (map entry_price (positions_of (held_positions btc_bull_run) ''BTCUSDT'')) = 40300 \<and>
   run_scenario 60 btc_bull_run =
     Inr [\<lparr>t_symbol = ''BTCUSDT'', t_side = ''LONG'', t_entry_price = 40300,
           t_exit_price = 44000, t_entry_time = 0, t_exit_time = 0, t_pnl = 3700,
           t_pnl_percent = 3700 / 40300 * 100, t_signal = ''STRONG_BUY''\<rparr>]"
proof -
  let ?c = "\<lparr>sc_symbol = ''BTCUSDT'', long_count = 4, short_count = 1, total_count = 5,
           long_percent = 80, short_percent = 20, avg_leverage_long = 1,
           avg_leverage_short = 1, total_long_pnl = 38.6, total_short_pnl = -7.3,
           signal = ''STRONG_BUY''\<rparr>"
  obtain cl where cl: "calculate_consensus 60 (map convert_trader (s_traders btc_bull_run))
        (held_positions btc_bull_run) None = Inr cl"
    and imp: "(\<forall>c \<in> set (get_strong_signals cl).
          mean (map entry_price (positions_of (held_positions btc_bull_run) (sc_symbol c))) \<noteq> 0) \<longrightarrow>
        run_scenario 60 btc_bull_run =
          Inr (map (expected_trade (s_date btc_bull_run) (held_positions btc_bull_run))
                 (get_strong_signals cl)) \<and>
        (\<forall>c \<in> set cl.
           length (filter (\<lambda>t. t_symbol t = sc_symbol c)
             (map (expected_trade (s_date btc_bull_run) (held_positions btc_bull_run))
                (get_strong_signals cl))) =
           (if c \<in> set (get_strong_signals cl) then 1 else 0))"
    using run_scenario_trades [of 60 btc_bull_run] by blast
  have eq: "cl = [?c]"
    using cl unfolding btc_consensus by simp
  have strong: "get_strong_signals cl = [?c]"
    unfolding eq by (simp add: get_strong_signals_def)
  have hyp: "\<forall>c \<in> set (get_strong_signals cl).
          mean (map entry_price (positions_of (held_positions btc_bull_run) (sc_symbol c))) \<noteq> 0"
    unfolding strong by (simp add: btc_mean_entry)
  have run: "run_scenario 60 btc_bull_run =
          Inr (map (expected_trade (s_date btc_bull_run) (held_positions btc_bull_run))
                 (get_strong_signals cl))"
    using mp [OF imp hyp] by (rule conjunct1)
  have tr: "map (expected_trade (s_date btc_bull_run) (held_positions btc_bull_run))
                 (get_strong_signals cl) =
     [\<lparr>t_symbol = ''BTCUSDT'', t_side = ''LONG'', t_entry_price = 40300,
           t_exit_price = 44000, t_entry_time = 0, t_exit_time = 0, t_pnl = 3700,
           t_pnl_percent = 3700 / 40300 * 100, t_signal = ''STRONG_BUY''\<rparr>]"
    unfolding strong
    by (simp add: expected_trade_def Let_def btc_mean_entry btc_mean_exit btc_date)
  show ?thesis
    using btc_mean_entry run unfolding tr by (rule conjI)
qed

end
